theory Spec2Isabelle
  imports Complex_Main
begin

section \<open>Values shared by the three services\<close>

text \<open>
  The repository holds three Express services (users, products, orders) over one MongoDB
  database. A handler is modelled as a function from the service's state (its collections,
  its in-process cache, its counters) and the request to the response and the new state.
  Durations (the histograms and their timers) are left out: no handler reads them.
  Document timestamps (\<open>createdAt\<close>, \<open>updatedAt\<close>) are left out for the same reason.

  JavaScript numbers are modelled as exact rationals; \<open>NaN\<close>, \<open>undefined\<close> and \<open>null\<close>
  are \<open>None\<close> where they can arise. An absent request field is \<open>None\<close>. Sums and
  products are exact here, where JavaScript and MongoDB's \<open>$inc\<close> round to doubles (the
  code's \<open>999.99 * 3\<close> is \<open>2999.9700000000003\<close>); the properties below are about
  values on which the two agree, and none is about an amount.
\<close>

type_synonym oid = nat

datatype 'b response = Response (status: nat) (body: 'b)

text \<open>A template literal prints an undefined value as the text \<open>undefined\<close>.\<close>

definition js_string :: "string option \<Rightarrow> string" where
  "js_string v = (case v of None \<Rightarrow> ''undefined'' | Some s \<Rightarrow> s)"

text \<open>Truthiness of an optional string and of an optional number.\<close>

definition truthy_str :: "string option \<Rightarrow> bool" where
  "truthy_str v = (case v of None \<Rightarrow> False | Some s \<Rightarrow> s \<noteq> [])"

definition truthy_num :: "rat option \<Rightarrow> bool" where
  "truthy_num v = (case v of None \<Rightarrow> False | Some n \<Rightarrow> n \<noteq> 0)"

subsection \<open>MongoDB collections\<close>

text \<open>
  A collection is the list of its documents in natural order. \<open>findOne\<close> returns the first
  match, \<open>insertOne\<close> appends, \<open>updateOne\<close> rewrites the first match and reports
  \<open>modifiedCount\<close>, \<open>countDocuments\<close> counts the matches. Every update of the
  source also sets \<open>updatedAt\<close> to the current time, so a matched document counts as
  modified.
\<close>

definition findOne :: "('a \<Rightarrow> bool) \<Rightarrow> 'a list \<Rightarrow> 'a option" where
  "findOne flt coll = List.find flt coll"

definition insertOne :: "'a \<Rightarrow> 'a list \<Rightarrow> 'a list" where
  "insertOne doc coll = coll @ [doc]"

fun updateOne :: "('a \<Rightarrow> bool) \<Rightarrow> ('a \<Rightarrow> 'a) \<Rightarrow> 'a list \<Rightarrow> nat \<times> 'a list" where
  "updateOne flt upd [] = (0, [])"
| "updateOne flt upd (d # ds) =
     (if flt d then (1, upd d # ds)
      else (case updateOne flt upd ds of (n, ds') \<Rightarrow> (n, d # ds')))"

definition countDocuments :: "('a \<Rightarrow> bool) \<Rightarrow> 'a list \<Rightarrow> nat" where
  "countDocuments flt coll = length (filter flt coll)"

subsection \<open>The in-process cache\<close>

text \<open>
  \<open>const cache = new Map()\<close>. The handlers call \<open>cache.set(key, value, ttl)\<close>; a
  \<open>Map\<close> takes two arguments and drops the third, and no handler, timer or sweeper
  ever removes a single key. \<open>cache.clear()\<close> empties the map.
\<close>

type_synonym 'v cache = "string \<rightharpoonup> 'v"

definition cache_set :: "'v cache \<Rightarrow> string \<Rightarrow> 'v \<Rightarrow> nat \<Rightarrow> 'v cache" where
  "cache_set c k v ttl = c(k \<mapsto> v)"

definition cache_get :: "'v cache \<Rightarrow> string \<Rightarrow> 'v option" where
  "cache_get c k = c k"

definition cache_clear :: "'v cache \<Rightarrow> 'v cache" where
  "cache_clear c = Map.empty"

text \<open>
  The process between two requests: \<open>ms\<close> milliseconds pass. Nothing in the source is
  scheduled to run in that time, so the map is the same afterwards.
\<close>

definition elapse :: "nat \<Rightarrow> 'v cache \<Rightarrow> 'v cache" where
  "elapse ms c = c"

subsection \<open>Documents\<close>

record user =
  user_id :: oid
  user_name :: "string option"
  user_email :: "string option"
  user_password :: "string option"
  user_status :: string

record product =
  product_id :: oid
  product_name :: string
  price :: rat
  category :: string
  stock :: rat
  description :: string

subsection \<open>What the handlers take from outside the repository\<close>

text \<open>
  The driver's \<open>ObjectId\<close> constructor (\<open>Inl\<close> is the message of the error it throws),
  bcrypt, the token signer, JavaScript's \<open>Number\<close> coercion and \<open>parseInt\<close> on a query
  string (\<open>None\<close> is \<open>NaN\<close>), and the driver's cursor
  \<open>find(query).sort({[sort]: sortOrder}).skip(skip).limit(limit).toArray()\<close>, given the
  documents the query matches, the sort field, the sort order, the skip and the limit
  (\<open>Inl\<close> is the message of the error the driver throws).
\<close>

record runtime =
  ObjectId :: "string \<Rightarrow> string + oid"
  bcrypt_hash :: "string \<Rightarrow> string"
  bcrypt_compare :: "string \<Rightarrow> string \<Rightarrow> bool"
  jwt_sign :: "oid \<Rightarrow> string option \<Rightarrow> string + string"
  Number :: "string \<Rightarrow> rat option"
  parseInt :: "string \<Rightarrow> int option"
  find_cursor :: "product list \<Rightarrow> string \<Rightarrow> int \<Rightarrow> rat option \<Rightarrow> int option \<Rightarrow> string + product list"

section \<open>User service\<close>

text \<open>
  The state of the user service: the \<open>users\<close> collection, the cache, the identifier the
  next insert gets, and the counters. The handlers modelled are registration, login and
  the read by id. The list handler \<open>GET /api/users\<close> keeps its entries under keys that
  start with \<open>users:\<close>, which no key of the handlers below equals, so the cache is
  modelled with the user documents it holds under \<open>user:...\<close>.
\<close>

record us_state =
  users :: "user list"
  us_cache :: "user cache"
  us_next_id :: oid
  userRegistrationsTotal :: nat
  userLoginsTotal :: nat
  userLoginsFailedTotal :: nat
  cacheHitsTotal :: nat
  cacheMissesTotal :: nat

datatype us_body =
    UsError string
  | UsRegistered oid
  | UsLoggedIn string oid "string option" "string option"
  | UsUser user

record register_body =
  rb_name :: "string option"
  rb_email :: "string option"
  rb_password :: "string option"

text \<open>
  \<open>POST /api/users/register\<close>. A filter on an undefined email is sent as \<open>null\<close> and matches
  the documents without an email. \<open>bcrypt.hash\<close> rejects an undefined password, which the
  handler's \<open>catch\<close> turns into a 500.
\<close>

definition register :: "runtime \<Rightarrow> us_state \<Rightarrow> register_body \<Rightarrow> us_body response \<times> us_state" where
  "register rt st b =
     (case findOne (\<lambda>u. user_email u = rb_email b) (users st) of
        Some existingUser \<Rightarrow> (Response 400 (UsError ''User already exists''), st)
      | None \<Rightarrow>
          (case rb_password b of
             None \<Rightarrow> (Response 500 (UsError ''data and salt arguments required''), st)
           | Some password \<Rightarrow>
               (let insertedId = us_next_id st;
                    doc = \<lparr> user_id = insertedId, user_name = rb_name b,
                            user_email = rb_email b,
                            user_password = Some (bcrypt_hash rt password),
                            user_status = ''active'' \<rparr>
                in (Response 201 (UsRegistered insertedId),
                    st \<lparr> users := insertOne doc (users st),
                         us_next_id := Suc insertedId,
                         userRegistrationsTotal := Suc (userRegistrationsTotal st) \<rparr>))))"

record login_body =
  lb_email :: "string option"
  lb_password :: "string option"

text \<open>
  \<open>POST /api/users/login\<close>, in two parts as the source has them: the lookup through the
  cache (which stores the document as found, password hash included, before any check),
  then the password check and the token.
\<close>

definition login_lookup :: "us_state \<Rightarrow> login_body \<Rightarrow> user option \<times> us_state" where
  "login_lookup st b =
     (let cacheKey = ''user:'' @ js_string (lb_email b) in
      case cache_get (us_cache st) cacheKey of
        Some user \<Rightarrow> (Some user, st \<lparr> cacheHitsTotal := Suc (cacheHitsTotal st) \<rparr>)
      | None \<Rightarrow>
          (let st1 = st \<lparr> cacheMissesTotal := Suc (cacheMissesTotal st) \<rparr> in
           case findOne (\<lambda>u. user_email u = lb_email b) (users st) of
             Some user \<Rightarrow>
               (Some user, st1 \<lparr> us_cache := cache_set (us_cache st) cacheKey user 300000 \<rparr>)
           | None \<Rightarrow> (None, st1)))"

definition login_check :: "runtime \<Rightarrow> login_body \<Rightarrow> user option \<times> us_state \<Rightarrow> us_body response \<times> us_state" where
  "login_check rt b found =
     (case found of
        (None, st) \<Rightarrow>
          (Response 401 (UsError ''Invalid credentials''),
           st \<lparr> userLoginsFailedTotal := Suc (userLoginsFailedTotal st) \<rparr>)
      | (Some user, st) \<Rightarrow>
          (case (lb_password b, user_password user) of
             (Some password, Some hash) \<Rightarrow>
               (if \<not> bcrypt_compare rt password hash
                then (Response 401 (UsError ''Invalid credentials''),
                      st \<lparr> userLoginsFailedTotal := Suc (userLoginsFailedTotal st) \<rparr>)
                else (case jwt_sign rt (user_id user) (user_email user) of
                        Inl msg \<Rightarrow> (Response 500 (UsError msg), st)
                      | Inr token \<Rightarrow>
                          (Response 200 (UsLoggedIn token (user_id user) (user_name user) (user_email user)),
                           st \<lparr> userLoginsTotal := Suc (userLoginsTotal st) \<rparr>)))
           | _ \<Rightarrow> (Response 500 (UsError ''data and hash arguments required''), st)))"

definition login :: "runtime \<Rightarrow> us_state \<Rightarrow> login_body \<Rightarrow> us_body response \<times> us_state" where
  "login rt st b = login_check rt b (login_lookup st b)"

text \<open>
  \<open>GET /api/users/:id\<close>. The cache is read first, under \<open>user:\<close> followed by the path
  segment as given; only a miss builds the \<open>ObjectId\<close> and queries with the projection
  \<open>{ password: 0 }\<close>.
\<close>

definition project_password :: "user \<Rightarrow> user" where
  "project_password u = u \<lparr> user_password := None \<rparr>"

definition get_user :: "runtime \<Rightarrow> us_state \<Rightarrow> string \<Rightarrow> us_body response \<times> us_state" where
  "get_user rt st id' =
     (let cacheKey = ''user:'' @ id' in
      case cache_get (us_cache st) cacheKey of
        Some user \<Rightarrow>
          (Response 200 (UsUser user), st \<lparr> cacheHitsTotal := Suc (cacheHitsTotal st) \<rparr>)
      | None \<Rightarrow>
          (let st1 = st \<lparr> cacheMissesTotal := Suc (cacheMissesTotal st) \<rparr> in
           case ObjectId rt id' of
             Inl msg \<Rightarrow> (Response 500 (UsError msg), st1)
           | Inr i \<Rightarrow>
               (case map_option project_password (findOne (\<lambda>u. user_id u = i) (users st)) of
                  None \<Rightarrow> (Response 404 (UsError ''User not found''), st1)
                | Some user \<Rightarrow>
                    (Response 200 (UsUser user),
                     st1 \<lparr> us_cache := cache_set (us_cache st) cacheKey user 120000 \<rparr>))))"

text \<open>Whether a response body of the user service carries a password hash.\<close>

definition exposes_password :: "us_body \<Rightarrow> bool" where
  "exposes_password b = (case b of UsUser u \<Rightarrow> user_password u \<noteq> None | _ \<Rightarrow> False)"

section \<open>Product service\<close>

text \<open>
  The cache of the product service holds, per list query, the object
  \<open>{ products, totalProducts }\<close>. The counters with a \<open>category\<close> label are functions of
  the label.
\<close>

record ps_state =
  products :: "product list"
  ps_cache :: "(product list \<times> nat) cache"
  ps_next_id :: oid
  productsCreatedTotal :: "string \<Rightarrow> nat"
  productsViewedTotal :: nat
  productsPurchasedTotal :: "string \<Rightarrow> nat"
  stockUpdatesTotal :: nat

record pagination =
  pg_page :: "int option"
  pg_limit :: "int option"
  pg_total :: "nat option"
  pg_pages :: "int option"

datatype ps_body =
    PsError string
  | PsInsufficient rat rat
  | PsList "product list" pagination
  | PsProduct product
  | PsCreated oid product
  | PsStockUpdated
  | PsPurchased string rat rat

record list_query =
  q_category :: "string option"
  q_page :: "string option"
  q_limit :: "string option"
  q_sort :: "string option"
  q_order :: "string option"

text \<open>
  \<open>GET /api/products\<close>. The destructuring defaults are the numbers 1 and 10 and the strings
  \<open>name\<close> and \<open>asc\<close>. \<open>cache_key\<close> is the template literal of the key, \<open>query_of\<close> the
  filter \<open>category ? { category } : {}\<close>, \<open>find_page\<close> the cursor with
  \<open>skip = (page - 1) * limit\<close> and \<open>parseInt(limit)\<close>. On a miss the handler stores the
  object \<open>{ products, totalProducts }\<close>; on a hit the variable \<open>products\<close> is that
  object, and the next statement, \<open>products.forEach(...)\<close>, throws a \<open>TypeError\<close> (an
  object has no \<open>forEach\<close>), which the handler's \<open>catch\<close> answers with a 500.
  \<open>totalProducts || products.totalProducts\<close> is \<open>js_or\<close>: on the miss path the second
  operand is undefined, \<open>products\<close> being an array there.
\<close>

definition cache_key :: "list_query \<Rightarrow> string" where
  "cache_key q =
     ''products:'' @ (if truthy_str (q_category q) then js_string (q_category q) else ''all'')
     @ '':page:'' @ (case q_page q of None \<Rightarrow> ''1'' | Some s \<Rightarrow> s)
     @ '':limit:'' @ (case q_limit q of None \<Rightarrow> ''10'' | Some s \<Rightarrow> s)
     @ '':sort:'' @ (case q_sort q of None \<Rightarrow> ''name'' | Some s \<Rightarrow> s)
     @ '':order:'' @ (case q_order q of None \<Rightarrow> ''asc'' | Some s \<Rightarrow> s)"

definition js_or :: "nat \<Rightarrow> nat option \<Rightarrow> nat option" where
  "js_or totalProducts other = (if totalProducts \<noteq> 0 then Some totalProducts else other)"

definition pages_of :: "nat option \<Rightarrow> rat option \<Rightarrow> int option" where
  "pages_of total' limit' =
     (case (total', limit') of
        (Some t, Some l) \<Rightarrow> (if l = 0 then None else Some \<lceil>of_nat t / l\<rceil>)
      | _ \<Rightarrow> None)"

definition query_of :: "list_query \<Rightarrow> product \<Rightarrow> bool" where
  "query_of q p = (if truthy_str (q_category q) then Some (category p) = q_category q else True)"

definition limit_number :: "runtime \<Rightarrow> list_query \<Rightarrow> rat option" where
  "limit_number rt q = (case q_limit q of None \<Rightarrow> Some 10 | Some s \<Rightarrow> Number rt s)"

definition find_page :: "runtime \<Rightarrow> ps_state \<Rightarrow> list_query \<Rightarrow> string + product list" where
  "find_page rt st q =
     (let page = (case q_page q of None \<Rightarrow> Some 1 | Some s \<Rightarrow> Number rt s);
          limit = limit_number rt q;
          sort = (case q_sort q of None \<Rightarrow> ''name'' | Some s \<Rightarrow> s);
          order = (case q_order q of None \<Rightarrow> ''asc'' | Some s \<Rightarrow> s);
          skip = (case (page, limit) of (Some p, Some l) \<Rightarrow> Some ((p - 1) * l) | _ \<Rightarrow> None);
          sortOrder = (if order = ''desc'' then - 1 else 1)
      in find_cursor rt (filter (query_of q) (products st)) sort sortOrder skip
           (case q_limit q of None \<Rightarrow> Some 10 | Some s \<Rightarrow> parseInt rt s))"

definition list_products :: "runtime \<Rightarrow> ps_state \<Rightarrow> list_query \<Rightarrow> ps_body response \<times> ps_state" where
  "list_products rt st q =
     (let cacheKey = cache_key q in
      case cache_get (ps_cache st) cacheKey of
        Some cached \<Rightarrow> (Response 500 (PsError ''products.forEach is not a function''), st)
      | None \<Rightarrow>
          (case find_page rt st q of
             Inl msg \<Rightarrow> (Response 500 (PsError msg), st)
           | Inr found \<Rightarrow>
               (let totalProducts = countDocuments (query_of q) (products st);
                    total = js_or totalProducts None
                in (Response 200
                      (PsList found
                         \<lparr> pg_page = (case q_page q of None \<Rightarrow> Some 1 | Some s \<Rightarrow> parseInt rt s),
                           pg_limit = (case q_limit q of None \<Rightarrow> Some 10 | Some s \<Rightarrow> parseInt rt s),
                           pg_total = total,
                           pg_pages = pages_of total (limit_number rt q) \<rparr>),
                    st \<lparr> ps_cache := cache_set (ps_cache st) cacheKey (found, totalProducts) 30000,
                         productsViewedTotal := productsViewedTotal st + length found \<rparr>))))"

text \<open>\<open>GET /api/products/:id\<close>.\<close>

definition get_product :: "runtime \<Rightarrow> ps_state \<Rightarrow> string \<Rightarrow> ps_body response \<times> ps_state" where
  "get_product rt st id' =
     (case ObjectId rt id' of
        Inl msg \<Rightarrow> (Response 500 (PsError msg), st)
      | Inr i \<Rightarrow>
          (case findOne (\<lambda>p. product_id p = i) (products st) of
             None \<Rightarrow> (Response 404 (PsError ''Product not found''), st)
           | Some product \<Rightarrow>
               (Response 200 (PsProduct product),
                st \<lparr> productsViewedTotal := Suc (productsViewedTotal st) \<rparr>)))"

text \<open>
  \<open>POST /api/products\<close>. The body's \<open>price\<close> is a number and its \<open>stock\<close> an integer
  when present, so \<open>parseFloat\<close> and \<open>parseInt\<close> return them as they are (for an
  integer below \<open>1e21\<close> in size; from there on \<open>parseInt\<close> reads the digits before the
  exponent of the number's text); \<open>parseInt(undefined) || 0\<close> is 0.
\<close>

record product_body =
  pb_name :: "string option"
  pb_price :: "rat option"
  pb_category :: "string option"
  pb_stock :: "int option"
  pb_description :: "string option"

definition create_product :: "ps_state \<Rightarrow> product_body \<Rightarrow> ps_body response \<times> ps_state" where
  "create_product st b =
     (case (pb_name b, pb_price b, pb_category b) of
        (Some name, Some price', Some category') \<Rightarrow>
          (if name = [] \<or> price' = 0 \<or> category' = []
           then (Response 400 (PsError ''Missing required fields''), st)
           else
             (let insertedId = ps_next_id st;
                  doc = \<lparr> product_id = insertedId, product_name = name, price = price',
                          category = category',
                          stock = (case pb_stock b of None \<Rightarrow> 0 | Some n \<Rightarrow> of_int n),
                          description = (if truthy_str (pb_description b)
                                         then js_string (pb_description b) else []) \<rparr>
              in (Response 201 (PsCreated insertedId doc),
                  st \<lparr> products := insertOne doc (products st),
                       ps_next_id := Suc insertedId,
                       productsCreatedTotal :=
                         (productsCreatedTotal st)(category' := Suc (productsCreatedTotal st category')),
                       ps_cache := cache_clear (ps_cache st) \<rparr>)))
      | _ \<Rightarrow> (Response 400 (PsError ''Missing required fields''), st))"

text \<open>
  \<open>PUT /api/products/:id/stock\<close>: \<open>$inc: { stock: quantity }\<close> under the filter
  \<open>{ _id }\<close> alone. A \<open>quantity\<close> that is absent or not a number is \<open>None\<close>. The
  counter is incremented before \<open>modifiedCount\<close> is looked at.
\<close>

definition put_stock :: "runtime \<Rightarrow> ps_state \<Rightarrow> string \<Rightarrow> rat option \<Rightarrow> ps_body response \<times> ps_state" where
  "put_stock rt st id' quantity =
     (case quantity of
        None \<Rightarrow> (Response 400 (PsError ''Quantity must be a number''), st)
      | Some q \<Rightarrow>
          (case ObjectId rt id' of
             Inl msg \<Rightarrow> (Response 500 (PsError msg), st)
           | Inr i \<Rightarrow>
               (case updateOne (\<lambda>p. product_id p = i) (\<lambda>p. p \<lparr> stock := stock p + q \<rparr>) (products st) of
                  (modifiedCount, coll) \<Rightarrow>
                    (let st1 = st \<lparr> products := coll, stockUpdatesTotal := Suc (stockUpdatesTotal st) \<rparr>
                     in if modifiedCount = 0
                        then (Response 404 (PsError ''Product not found''), st1)
                        else (Response 200 PsStockUpdated,
                              st1 \<lparr> ps_cache := cache_clear (ps_cache st) \<rparr>)))))"

text \<open>
  \<open>POST /api/products/:id/purchase\<close>, in the two database round trips the source makes:
  \<open>findOne\<close>, then (after the handler's own checks on the document it read) the
  \<open>updateOne\<close> whose filter is \<open>{ _id, stock: { $gte: quantity } }\<close>, followed by the
  counters, \<open>cache.clear()\<close> and the response. A missing \<open>quantity\<close> defaults to 1.
\<close>

definition purchase_lookup :: "runtime \<Rightarrow> ps_state \<Rightarrow> string \<Rightarrow> string + oid \<times> product option" where
  "purchase_lookup rt st id' =
     (case ObjectId rt id' of
        Inl msg \<Rightarrow> Inl msg
      | Inr i \<Rightarrow> Inr (i, findOne (\<lambda>p. product_id p = i) (products st)))"

definition purchase_commit ::
    "ps_state \<Rightarrow> string \<Rightarrow> rat option \<Rightarrow> oid \<Rightarrow> product option \<Rightarrow> ps_body response \<times> ps_state" where
  "purchase_commit st id' qty i found =
     (let quantity = (case qty of None \<Rightarrow> 1 | Some q \<Rightarrow> q) in
      case found of
        None \<Rightarrow> (Response 404 (PsError ''Product not found''), st)
      | Some product \<Rightarrow>
          (if stock product < quantity
           then (Response 400 (PsInsufficient (stock product) quantity), st)
           else
             (case updateOne (\<lambda>p. product_id p = i \<and> quantity \<le> stock p)
                     (\<lambda>p. p \<lparr> stock := stock p - quantity \<rparr>) (products st) of
                (modifiedCount, coll) \<Rightarrow>
                  (if modifiedCount = 0
                   then (Response 400 (PsError ''Failed to process purchase''), st \<lparr> products := coll \<rparr>)
                   else (Response 200 (PsPurchased id' quantity (stock product - quantity)),
                         st \<lparr> products := coll,
                              productsPurchasedTotal :=
                                (productsPurchasedTotal st)
                                  (category product := Suc (productsPurchasedTotal st (category product))),
                              stockUpdatesTotal := Suc (stockUpdatesTotal st),
                              ps_cache := cache_clear (ps_cache st) \<rparr>)))))"

definition purchase :: "runtime \<Rightarrow> ps_state \<Rightarrow> string \<Rightarrow> rat option \<Rightarrow> ps_body response \<times> ps_state" where
  "purchase rt st id' qty =
     (case purchase_lookup rt st id' of
        Inl msg \<Rightarrow> (Response 500 (PsError msg), st)
      | Inr (i, found) \<Rightarrow> purchase_commit st id' qty i found)"


subsection \<open>Two purchase requests in flight\<close>

text \<open>
  The service is one Node.js process: a handler runs without interruption between two
  \<open>await\<close>s, and the database applies each single-document operation atomically. A
  purchase request in flight has therefore one of three stages: nothing done yet, the
  \<open>findOne\<close> answered, or the response sent. A turn of a request runs it to its next stage:
  the first turn is the \<open>findOne\<close>, the second is the rest of the handler with its
  \<open>updateOne\<close>. (What follows the \<open>updateOne\<close> touches the counters and the cache only,
  which no purchase reads.) A schedule lists whose turn it is: \<open>True\<close> for the first
  request, \<open>False\<close> for the second. A turn given to a request that has answered does
  nothing.
\<close>

datatype purchase_stage =
    Waiting
  | Fetched oid "product option"
  | Answered "ps_body response"

definition purchase_turn ::
    "runtime \<Rightarrow> string \<times> rat option \<Rightarrow> ps_state \<times> purchase_stage \<Rightarrow> ps_state \<times> purchase_stage" where
  "purchase_turn rt req c =
     (case c of
        (st, Waiting) \<Rightarrow>
          (case purchase_lookup rt st (fst req) of
             Inl msg \<Rightarrow> (st, Answered (Response 500 (PsError msg)))
           | Inr (i, found) \<Rightarrow> (st, Fetched i found))
      | (st, Fetched i found) \<Rightarrow>
          (case purchase_commit st (fst req) (snd req) i found of
             (resp, st') \<Rightarrow> (st', Answered resp))
      | (st, Answered resp) \<Rightarrow> (st, Answered resp))"

fun run_race ::
    "runtime \<Rightarrow> string \<times> rat option \<Rightarrow> string \<times> rat option \<Rightarrow> bool list \<Rightarrow>
     ps_state \<times> purchase_stage \<times> purchase_stage \<Rightarrow> ps_state \<times> purchase_stage \<times> purchase_stage" where
  "run_race rt ra rb [] c = c"
| "run_race rt ra rb (turn # sched) (st, a, b) =
     (if turn
      then (case purchase_turn rt ra (st, a) of (st', a') \<Rightarrow> run_race rt ra rb sched (st', a', b))
      else (case purchase_turn rt rb (st, b) of (st', b') \<Rightarrow> run_race rt ra rb sched (st', a, b')))"

text \<open>
  How far a request in flight has come, and the two ways the example race (quantity 6
  each, on a product holding 10) can be settled once one request has been answered with
  the purchase and the stock is 4: the other request reads after that write (\<open>late\<close>:
  it has not read yet, or has read 4, or has been refused for insufficient stock), or it
  had read 10 before that write (it still holds the 10 it read, or its own write has
  matched nothing).
\<close>

definition stage_rank :: "purchase_stage \<Rightarrow> nat" where
  "stage_rank x = (case x of Waiting \<Rightarrow> 0 | Fetched i found \<Rightarrow> 1 | Answered r \<Rightarrow> 2)"

definition settled :: "string \<Rightarrow> oid \<Rightarrow> bool \<Rightarrow> ps_state \<times> purchase_stage \<times> purchase_stage \<Rightarrow> bool" where
  "settled pid i late c =
     (case c of (st, winner, loser) \<Rightarrow>
        distinct (map product_id (products st)) \<and>
        (\<exists>p. findOne (\<lambda>p. product_id p = i) (products st) = Some p \<and> stock p = 4) \<and>
        winner = Answered (Response 200 (PsPurchased pid 6 4)) \<and>
        (if late
         then loser = Waiting \<or> (\<exists>q. loser = Fetched i (Some q) \<and> stock q = 4)
              \<or> loser = Answered (Response 400 (PsInsufficient 4 6))
         else (\<exists>q. loser = Fetched i (Some q) \<and> stock q = 10)
              \<or> loser = Answered (Response 400 (PsError ''Failed to process purchase''))))"

section \<open>Order service\<close>

record order_item =
  oi_productId :: string
  oi_quantity :: rat

record order_line =
  ol_productId :: string
  ol_name :: string
  ol_price :: rat
  ol_quantity :: rat
  ol_subtotal :: rat

record order =
  order_id :: oid
  order_userId :: oid
  order_items :: "order_line list"
  totalAmount :: rat
  currency :: string
  shippingAddress :: string
  paymentMethod :: string
  order_status :: string

record os_state =
  orders :: "order list"
  os_next_id :: oid
  ordersCreatedTotal :: nat
  ordersCompletedTotal :: nat
  ordersFailedTotal :: nat
  revenueTotal :: rat

datatype os_body =
    OsError string
  | OsInsufficient string string rat rat
  | OsCreated oid order

record order_body =
  ob_userId :: "string option"
  ob_items :: "order_item list option"
  ob_shippingAddress :: "string option"
  ob_paymentMethod :: "string option"

text \<open>
  The three services of one deployment, and what a request to the order service meets:
  whether \<open>Math.random() > 0.1\<close> held in \<open>simulatePayment\<close>, and whether the peers
  answer at all. \<open>axios\<close> throws when the peer does not answer or answers outside 2xx.
  The source pastes \<open>userId\<close> and \<open>productId\<close> into the URL as they are; the calls
  are modelled for identifiers that are one path segment (no \<open>/\<close>, \<open>?\<close> or \<open>#\<close>),
  which the peer's router hands to the handler unchanged.
\<close>

record system =
  us :: us_state
  ps :: ps_state
  os :: os_state

record env =
  payment_success :: bool
  user_service_up :: bool
  product_service_up :: bool

definition ok2xx :: "nat \<Rightarrow> bool" where
  "ok2xx code = (200 \<le> code \<and> code < 300)"

definition fetch_user :: "runtime \<Rightarrow> env \<Rightarrow> us_state \<Rightarrow> string \<Rightarrow> user option \<times> us_state" where
  "fetch_user rt e st userId =
     (if user_service_up e
      then (case get_user rt st userId of
              (Response code (UsUser u), st') \<Rightarrow> (if ok2xx code then Some u else None, st')
            | (_, st') \<Rightarrow> (None, st'))
      else (None, st))"

definition fetch_product :: "runtime \<Rightarrow> env \<Rightarrow> ps_state \<Rightarrow> string \<Rightarrow> product option \<times> ps_state" where
  "fetch_product rt e st productId =
     (if product_service_up e
      then (case get_product rt st productId of
              (Response code (PsProduct p), st') \<Rightarrow> (if ok2xx code then Some p else None, st')
            | (_, st') \<Rightarrow> (None, st'))
      else (None, st))"

text \<open>The loop over the items that validates the products and accumulates the total.\<close>

fun validate_items ::
    "runtime \<Rightarrow> env \<Rightarrow> ps_state \<Rightarrow> order_item list \<Rightarrow> rat \<Rightarrow> order_line list \<Rightarrow>
     (os_body response + rat \<times> order_line list) \<times> ps_state" where
  "validate_items rt e st [] total' orderItems = (Inr (total', orderItems), st)"
| "validate_items rt e st (item # items) total' orderItems =
     (case fetch_product rt e st (oi_productId item) of
        (None, st') \<Rightarrow>
          (Inl (Response 400 (OsError (''Product '' @ oi_productId item @ '' not found''))), st')
      | (Some product, st') \<Rightarrow>
          (if stock product < oi_quantity item
           then (Inl (Response 400
                        (OsInsufficient (''Insufficient stock for product '' @ product_name product)
                           (oi_productId item) (stock product) (oi_quantity item))), st')
           else
             (let itemTotal = price product * oi_quantity item
              in validate_items rt e st' items (total' + itemTotal)
                   (orderItems @ [\<lparr> ol_productId = oi_productId item, ol_name = product_name product,
                                     ol_price = price product, ol_quantity = oi_quantity item,
                                     ol_subtotal = itemTotal \<rparr>]))))"

text \<open>
  The loop after the insert: one \<open>PUT .../stock\<close> with \<open>{ quantity: -item.quantity }\<close> per
  item; an error of the call is logged and nothing else.
\<close>

fun decrement_stock :: "runtime \<Rightarrow> env \<Rightarrow> ps_state \<Rightarrow> order_item list \<Rightarrow> ps_state" where
  "decrement_stock rt e st [] = st"
| "decrement_stock rt e st (item # items) =
     decrement_stock rt e
       (if product_service_up e
        then snd (put_stock rt st (oi_productId item) (Some (- oi_quantity item)))
        else st)
       items"

text \<open>
  \<open>POST /api/orders\<close> up to the payment: the shape check, the user lookup, the item loop.
  \<open>Inl\<close> is the response of an early return; \<open>Inr\<close> carries \<open>userId\<close>, \<open>items\<close>,
  \<open>totalAmount\<close> and \<open>orderItems\<close> on to the payment.
\<close>

definition order_checks ::
    "runtime \<Rightarrow> env \<Rightarrow> system \<Rightarrow> order_body \<Rightarrow>
     (os_body response + string \<times> order_item list \<times> rat \<times> order_line list) \<times> system" where
  "order_checks rt e sys b =
     (case (ob_userId b, ob_items b) of
        (Some userId, Some items) \<Rightarrow>
          (if userId = [] \<or> items = []
           then (Inl (Response 400 (OsError ''Invalid order data'')), sys)
           else
             (case fetch_user rt e (us sys) userId of
                (None, us') \<Rightarrow> (Inl (Response 400 (OsError ''User not found'')), sys \<lparr> us := us' \<rparr>)
              | (Some user, us') \<Rightarrow>
                  (case validate_items rt e (ps sys) items 0 [] of
                     (Inl resp, ps') \<Rightarrow> (Inl resp, sys \<lparr> us := us', ps := ps' \<rparr>)
                   | (Inr (total', orderItems), ps') \<Rightarrow>
                       (Inr (userId, items, total', orderItems), sys \<lparr> us := us', ps := ps' \<rparr>))))
      | _ \<Rightarrow> (Inl (Response 400 (OsError ''Invalid order data'')), sys))"

text \<open>
  From the payment on. \<open>new ObjectId(userId)\<close> in the order document can throw, which the
  outer \<open>catch\<close> answers with a 500 and a failed order.
\<close>

definition order_commit ::
    "runtime \<Rightarrow> env \<Rightarrow> system \<Rightarrow> order_body \<Rightarrow> string \<times> order_item list \<times> rat \<times> order_line list \<Rightarrow>
     os_body response \<times> system" where
  "order_commit rt e sys b checked =
     (case checked of (userId, items, total', orderItems) \<Rightarrow>
        (if \<not> payment_success e
         then (Response 400 (OsError ''Payment processing failed''),
               sys \<lparr> os := (os sys) \<lparr> ordersFailedTotal := Suc (ordersFailedTotal (os sys)) \<rparr> \<rparr>)
         else
           (case ObjectId rt userId of
              Inl msg \<Rightarrow>
                (Response 500 (OsError msg),
                 sys \<lparr> os := (os sys) \<lparr> ordersFailedTotal := Suc (ordersFailedTotal (os sys)) \<rparr> \<rparr>)
            | Inr uid \<Rightarrow>
                (let insertedId = os_next_id (os sys);
                     doc = \<lparr> order_id = insertedId, order_userId = uid, order_items = orderItems,
                             totalAmount = total', currency = ''USD'',
                             shippingAddress = (if truthy_str (ob_shippingAddress b)
                                                then js_string (ob_shippingAddress b) else ''{}''),
                             paymentMethod = (if truthy_str (ob_paymentMethod b)
                                              then js_string (ob_paymentMethod b) else ''credit_card''),
                             order_status = ''pending'' \<rparr>
                 in (Response 201 (OsCreated insertedId doc),
                     sys \<lparr> ps := decrement_stock rt e (ps sys) items,
                           os := (os sys) \<lparr> orders := insertOne doc (orders (os sys)),
                                           os_next_id := Suc insertedId,
                                           ordersCreatedTotal := Suc (ordersCreatedTotal (os sys)),
                                           revenueTotal := revenueTotal (os sys) + total' \<rparr> \<rparr>)))))"

definition create_order :: "runtime \<Rightarrow> env \<Rightarrow> system \<Rightarrow> order_body \<Rightarrow> os_body response \<times> system" where
  "create_order rt e sys b =
     (case order_checks rt e sys b of
        (Inl resp, sys') \<Rightarrow> (resp, sys')
      | (Inr checked, sys') \<Rightarrow> order_commit rt e sys' b checked)"

subsection \<open>Health\<close>

text \<open>
  \<open>GET /health\<close> of the three services. \<open>None\<close> for a ping means \<open>db.command({ ping: 1 })\<close>
  returned; \<open>Some msg\<close> is the error it threw. The timestamp and the uptime of the body
  are left out.
\<close>

record health =
  h_status :: string
  h_mongodb :: "string option"
  h_error :: "string option"
  h_dependencies :: "(string \<times> string) option"

definition peer_health :: "string option \<Rightarrow> health response" where
  "peer_health ping =
     (case ping of
        None \<Rightarrow> Response 200 \<lparr> h_status = ''healthy'', h_mongodb = Some ''connected'',
                                h_error = None, h_dependencies = None \<rparr>
      | Some msg \<Rightarrow> Response 500 \<lparr> h_status = ''unhealthy'', h_mongodb = None,
                                    h_error = Some msg, h_dependencies = None \<rparr>)"

record health_env =
  os_ping :: "string option"
  us_reachable :: bool
  us_ping :: "string option"
  ps_reachable :: bool
  ps_ping :: "string option"

text \<open>\<open>axios.get(url).then(() => 'healthy').catch(() => 'unhealthy')\<close>.\<close>

definition probe :: "bool \<Rightarrow> health response \<Rightarrow> string" where
  "probe reachable resp = (if reachable \<and> ok2xx (status resp) then ''healthy'' else ''unhealthy'')"

definition order_health :: "health_env \<Rightarrow> health response" where
  "order_health h =
     (case os_ping h of
        Some msg \<Rightarrow> Response 500 \<lparr> h_status = ''unhealthy'', h_mongodb = None,
                                    h_error = Some msg, h_dependencies = None \<rparr>
      | None \<Rightarrow>
          (let userServiceHealth = probe (us_reachable h) (peer_health (us_ping h));
               productServiceHealth = probe (ps_reachable h) (peer_health (ps_ping h))
           in Response 200 \<lparr> h_status = ''healthy'', h_mongodb = Some ''connected'',
                              h_error = None,
                              h_dependencies = Some (userServiceHealth, productServiceHealth) \<rparr>))"


section \<open>An example deployment\<close>

text \<open>
  A runtime and a state of each service, on which the properties below are run. The
  identifiers are those of the seed script; John is a seeded user (no password field), Alice
  a registered one. The example cursor serves a collection that is already in the
  requested order.
\<close>

definition example_runtime :: runtime where
  "example_runtime =
     \<lparr> ObjectId = (\<lambda>s. if s = ''651234567890123456789001'' then Inr 1
                      else if s = ''651234567890123456789101'' then Inr 101
                      else Inl ''input must be a 24 character hex string, 12 byte Uint8Array, or an integer''),
       bcrypt_hash = (\<lambda>p. ''$2b$10$'' @ p),
       bcrypt_compare = (\<lambda>p h. h = ''$2b$10$'' @ p),
       jwt_sign = (\<lambda>i e. Inr (''jwt:'' @ js_string e)),
       Number = (\<lambda>s. if s = ''1'' then Some 1 else if s = ''10'' then Some 10 else None),
       parseInt = (\<lambda>s. if s = ''1'' then Some 1 else if s = ''10'' then Some 10 else None),
       find_cursor = (\<lambda>docs sort' order' skip' limit'.
          case (skip', limit') of
            (Some k, Some n) \<Rightarrow>
              (if 0 \<le> k \<and> 0 < n then Inr (take (nat n) (drop (nat \<lfloor>k\<rfloor>) docs))
               else Inl ''invalid skip or limit'')
          | _ \<Rightarrow> Inl ''invalid skip or limit'') \<rparr>"

definition john :: user where
  "john = \<lparr> user_id = 1, user_name = Some ''John Doe'', user_email = Some ''john@example.com'',
            user_password = None, user_status = ''active'' \<rparr>"

definition alice :: user where
  "alice = \<lparr> user_id = 2, user_name = Some ''Alice'', user_email = Some ''alice@example.com'',
             user_password = Some ''$2b$10$secret'', user_status = ''active'' \<rparr>"

definition example_users :: us_state where
  "example_users =
     \<lparr> users = [john, alice], us_cache = Map.empty, us_next_id = 3,
       userRegistrationsTotal = 1, userLoginsTotal = 0, userLoginsFailedTotal = 0,
       cacheHitsTotal = 0, cacheMissesTotal = 0 \<rparr>"

definition laptop :: product where
  "laptop = \<lparr> product_id = 101, product_name = ''Laptop'', price = 1000,
              category = ''electronics'', stock = 10, description = [] \<rparr>"

definition example_products :: ps_state where
  "example_products =
     \<lparr> products = [laptop], ps_cache = Map.empty, ps_next_id = 102,
       productsCreatedTotal = (\<lambda>c. 0), productsViewedTotal = 0,
       productsPurchasedTotal = (\<lambda>c. 0), stockUpdatesTotal = 0 \<rparr>"

definition example_orders :: os_state where
  "example_orders =
     \<lparr> orders = [], os_next_id = 201, ordersCreatedTotal = 0, ordersCompletedTotal = 0,
       ordersFailedTotal = 0, revenueTotal = 0 \<rparr>"

definition example_system :: system where
  "example_system = \<lparr> us = example_users, ps = example_products, os = example_orders \<rparr>"

definition all_up :: "bool \<Rightarrow> env" where
  "all_up paid = \<lparr> payment_success = paid, user_service_up = True, product_service_up = True \<rparr>"

definition no_params :: list_query where
  "no_params = \<lparr> q_category = None, q_page = None, q_limit = None, q_sort = None, q_order = None \<rparr>"

definition one_laptop :: order_body where
  "one_laptop = \<lparr> ob_userId = Some ''651234567890123456789001'',
       ob_items = Some [\<lparr> oi_productId = ''651234567890123456789101'', oi_quantity = 3 \<rparr>],
       ob_shippingAddress = None, ob_paymentMethod = None \<rparr>"

definition two_lines :: order_body where
  "two_lines = \<lparr> ob_userId = Some ''651234567890123456789001'',
       ob_items = Some [\<lparr> oi_productId = ''651234567890123456789101'', oi_quantity = 6 \<rparr>,
                        \<lparr> oi_productId = ''651234567890123456789101'', oi_quantity = 6 \<rparr>],
       ob_shippingAddress = None, ob_paymentMethod = None \<rparr>"

section \<open>Properties\<close>

subsection \<open>Collections\<close>

lemma findOne_None_iff: "findOne flt coll = None \<longleftrightarrow> (\<forall>d \<in> set coll. \<not> flt d)"
  by (auto simp: findOne_def find_None_iff)

lemma findOne_SomeD: "findOne flt coll = Some d \<Longrightarrow> d \<in> set coll \<and> flt d"
  by (auto simp: findOne_def find_Some_iff)

lemma updateOne_first_match:
  fixes coll :: "product list"
  assumes "findOne (\<lambda>p. product_id p = i) coll = Some p" and "c p"
    and "\<And>d. product_id (upd d) = product_id d"
  shows "fst (updateOne (\<lambda>d. product_id d = i \<and> c d) upd coll) = 1 \<and>
         findOne (\<lambda>p. product_id p = i) (snd (updateOne (\<lambda>d. product_id d = i \<and> c d) upd coll)) = Some (upd p) \<and>
         map product_id (snd (updateOne (\<lambda>d. product_id d = i \<and> c d) upd coll)) = map product_id coll"
  using assms
  by (induction coll) (auto simp: findOne_def split: prod.splits if_splits)

lemma updateOne_no_match:
  fixes coll :: "product list"
  assumes "distinct (map product_id coll)"
    and "findOne (\<lambda>p. product_id p = i) coll = Some p" and "\<not> c p"
  shows "updateOne (\<lambda>d. product_id d = i \<and> c d) upd coll = (0, coll)"
  using assms
proof (induction coll)
  case Nil
  then show ?case by simp
next
  case (Cons d ds)
  show ?case
  proof (cases "product_id d = i")
    case True
    with Cons.prems have "d = p" by (simp add: findOne_def)
    have "\<forall>x \<in> set ds. product_id x \<noteq> i"
      using Cons.prems(1) True by (fastforce simp: image_iff)
    then have "updateOne (\<lambda>d. product_id d = i \<and> c d) upd ds = (0, ds)"
      by (induction ds) auto
    with True \<open>d = p\<close> Cons.prems(3) show ?thesis by simp
  next
    case False
    with Cons show ?thesis by (simp add: findOne_def)
  qed
qed

lemma updateOne_preserves:
  assumes "\<forall>d \<in> set coll. P d" and "\<And>d. flt d \<Longrightarrow> P d \<Longrightarrow> P (upd d)"
  shows "\<forall>d \<in> set (snd (updateOne flt upd coll)). P d"
  using assms by (induction coll) (auto split: prod.splits)

subsection \<open>The example deployment\<close>

lemma example_user_oid: "ObjectId example_runtime ''651234567890123456789001'' = Inr 1"
  by (simp add: example_runtime_def)

lemma example_product_oid: "ObjectId example_runtime ''651234567890123456789101'' = Inr 101"
  by (simp add: example_runtime_def)

lemma find_page_example:
  "find_page example_runtime example_products no_params = Inr [laptop]"
  by (simp add: find_page_def limit_number_def no_params_def example_runtime_def
      example_products_def query_of_def truthy_str_def Let_def)

lemma list_products_example:
  "fst (list_products example_runtime example_products no_params)
     = Response 200 (PsList [laptop]
         \<lparr> pg_page = Some 1, pg_limit = Some 10, pg_total = Some 1, pg_pages = Some 1 \<rparr>)"
proof -
  have miss: "cache_get (ps_cache example_products) (cache_key no_params) = None"
    by (simp add: cache_get_def example_products_def)
  have count: "countDocuments (query_of no_params) (products example_products) = 1"
    by (simp add: countDocuments_def query_of_def no_params_def truthy_str_def example_products_def)
  have ceil: "\<lceil>(1::rat) / 10\<rceil> = 1"
    by (rule ceiling_unique) simp_all
  have pages: "pages_of (Some (Suc 0)) (limit_number example_runtime no_params) = Some 1"
    by (simp add: pages_of_def limit_number_def no_params_def ceil)
  have params: "q_page no_params = None" "q_limit no_params = None"
    by (simp_all add: no_params_def)
  show ?thesis
    by (simp add: list_products_def Let_def miss find_page_example count pages js_or_def params)
qed

lemma get_product_example:
  "products st = [laptop] \<Longrightarrow>
   get_product example_runtime st ''651234567890123456789101''
     = (Response 200 (PsProduct laptop), st \<lparr> productsViewedTotal := Suc (productsViewedTotal st) \<rparr>)"
  by (simp add: get_product_def example_product_oid findOne_def laptop_def)

lemma fetch_product_example:
  "products st = [laptop] \<Longrightarrow>
   fetch_product example_runtime (all_up paid) st ''651234567890123456789101''
     = (Some laptop, st \<lparr> productsViewedTotal := Suc (productsViewedTotal st) \<rparr>)"
  by (simp add: fetch_product_def get_product_example all_up_def ok2xx_def)

lemma fetch_user_example:
  "fst (fetch_user example_runtime (all_up paid) example_users ''651234567890123456789001'')
     = Some (project_password john)"
  by (simp add: fetch_user_def get_user_def example_user_oid all_up_def Let_def cache_get_def
      example_users_def findOne_def john_def ok2xx_def)

lemma validate_items_products:
  "products (snd (validate_items rt e st items total' orderItems)) = products st"
proof (induction items arbitrary: st total' orderItems)
  case Nil
  then show ?case by simp
next
  case (Cons item items)
  have f: "products (snd (fetch_product rt e st (oi_productId item))) = products st"
    by (simp add: fetch_product_def get_product_def
        split: sum.splits option.splits prod.splits response.splits ps_body.splits)
  obtain found st' where g: "fetch_product rt e st (oi_productId item) = (found, st')"
    by (cases "fetch_product rt e st (oi_productId item)")
  with f have "products st' = products st" by simp
  with g Cons.IH [of st'] show ?case
    by (simp add: Let_def split: option.splits)
qed

lemma validate_items_productsD:
  "validate_items rt e st items total' orderItems = (r, st') \<Longrightarrow> products st' = products st"
  using validate_items_products [of rt e st items total' orderItems] by simp

lemma order_checks_products:
  "products (ps (snd (order_checks rt e sys b))) = products (ps sys)"
  by (auto simp: order_checks_def dest: validate_items_productsD
      split: option.splits prod.splits sum.splits)

lemma order_checks_one_laptop:
  "fst (order_checks example_runtime (all_up paid) example_system one_laptop)
     = Inr (''651234567890123456789001'',
            [\<lparr> oi_productId = ''651234567890123456789101'', oi_quantity = 3 \<rparr>],
            3000,
            [\<lparr> ol_productId = ''651234567890123456789101'', ol_name = ''Laptop'',
               ol_price = 1000, ol_quantity = 3, ol_subtotal = 3000 \<rparr>])"
proof -
  have single: "products example_products = [laptop]"
    by (simp add: example_products_def)
  obtain u us' where u: "fetch_user example_runtime (all_up paid) example_users
      ''651234567890123456789001'' = (Some u, us')"
    using fetch_user_example [of paid]
    by (cases "fetch_user example_runtime (all_up paid) example_users ''651234567890123456789001''") simp
  have v: "fst (validate_items example_runtime (all_up paid) example_products
      [\<lparr> oi_productId = ''651234567890123456789101'', oi_quantity = 3 \<rparr>] 0 [])
      = Inr (3000,
            [\<lparr> ol_productId = ''651234567890123456789101'', ol_name = ''Laptop'',
               ol_price = 1000, ol_quantity = 3, ol_subtotal = 3000 \<rparr>])"
    by (simp add: fetch_product_example [OF single] Let_def) (simp add: laptop_def)
  obtain ps' where w: "validate_items example_runtime (all_up paid) example_products
      [\<lparr> oi_productId = ''651234567890123456789101'', oi_quantity = 3 \<rparr>] 0 []
      = (Inr (3000,
            [\<lparr> ol_productId = ''651234567890123456789101'', ol_name = ''Laptop'',
               ol_price = 1000, ol_quantity = 3, ol_subtotal = 3000 \<rparr>]), ps')"
    using v
    by (cases "validate_items example_runtime (all_up paid) example_products
      [\<lparr> oi_productId = ''651234567890123456789101'', oi_quantity = 3 \<rparr>] 0 []") simp
  show ?thesis
    by (simp add: order_checks_def one_laptop_def example_system_def u w del: validate_items.simps)
qed

subsection \<open>The cache\<close>

text \<open>
  C3. After \<open>set(k, v, ttl)\<close>, \<open>get(k)\<close> returns \<open>v\<close> at once (\<open>ms = 0\<close>), and it still
  returns \<open>v\<close> after any time \<open>ms\<close>, also one longer than \<open>ttl\<close>: the entry is never
  treated as stale. The claim asks for a miss once more than \<open>ttl\<close> has passed, and the
  handlers' comments (\<open>Cache for 5 minutes\<close>, \<open>Cache for 30 seconds\<close>) say the same.
\<close>

theorem cache_entry_outlives_ttl:
  "cache_get (elapse ms (cache_set c k v ttl)) k = Some v"
  by (simp add: cache_get_def elapse_def cache_set_def)

subsection \<open>Registration\<close>

text \<open>
  C7. A registration whose email is the email of a stored user is answered with
  400 \<open>User already exists\<close> and leaves the whole state, the users collection included, as
  it was. A registration whose email is not stored, with a password, is answered with 201
  and appends exactly the new user.
\<close>

theorem register_duplicate_email_rejected:
  "(rb_email b \<in> user_email ` set (users st) \<longrightarrow>
      register rt st b = (Response 400 (UsError ''User already exists''), st)) \<and>
   (rb_email b \<notin> user_email ` set (users st) \<and> rb_password b = Some pw \<longrightarrow>
      fst (register rt st b) = Response 201 (UsRegistered (us_next_id st)) \<and>
      users (snd (register rt st b)) =
        users st @ [\<lparr> user_id = us_next_id st, user_name = rb_name b, user_email = rb_email b,
                      user_password = Some (bcrypt_hash rt pw), user_status = ''active'' \<rparr>])"
proof (intro conjI impI)
  assume "rb_email b \<in> user_email ` set (users st)"
  then have "findOne (\<lambda>u. user_email u = rb_email b) (users st) \<noteq> None"
    by (auto simp: findOne_None_iff)
  then show "register rt st b = (Response 400 (UsError ''User already exists''), st)"
    by (auto simp: register_def)
next
  assume a: "rb_email b \<notin> user_email ` set (users st) \<and> rb_password b = Some pw"
  then have n: "findOne (\<lambda>u. user_email u = rb_email b) (users st) = None"
    by (force simp: findOne_None_iff)
  from a n show "fst (register rt st b) = Response 201 (UsRegistered (us_next_id st))"
    by (simp add: register_def Let_def)
  from a n show "users (snd (register rt st b)) =
        users st @ [\<lparr> user_id = us_next_id st, user_name = rb_name b, user_email = rb_email b,
                      user_password = Some (bcrypt_hash rt pw), user_status = ''active'' \<rparr>]"
    by (simp add: register_def Let_def insertOne_def)
qed

theorem register_duplicate_email_rejected_witness:
  "register example_runtime example_users
     \<lparr> rb_name = Some ''Eve'', rb_email = Some ''alice@example.com'', rb_password = Some ''pw'' \<rparr>
     = (Response 400 (UsError ''User already exists''), example_users) \<and>
   fst (register example_runtime example_users
     \<lparr> rb_name = Some ''Bob'', rb_email = Some ''bob@example.com'', rb_password = Some ''pw'' \<rparr>)
     = Response 201 (UsRegistered 3)"
proof -
  have m: "Some ''alice@example.com'' \<in> user_email ` set (users example_users)"
    by (simp add: example_users_def alice_def john_def)
  have n: "Some ''bob@example.com'' \<notin> user_email ` set (users example_users)"
    by (simp add: example_users_def alice_def john_def)
  have i: "us_next_id example_users = 3"
    by (simp add: example_users_def)
  show ?thesis
    using register_duplicate_email_rejected
        [where b = "\<lparr> rb_name = Some ''Eve'', rb_email = Some ''alice@example.com'', rb_password = Some ''pw'' \<rparr>"
           and st = example_users and rt = example_runtime]
      register_duplicate_email_rejected
        [where b = "\<lparr> rb_name = Some ''Bob'', rb_email = Some ''bob@example.com'', rb_password = Some ''pw'' \<rparr>"
           and st = example_users and rt = example_runtime and pw = "''pw''"]
      m n i
    by simp
qed

text \<open>
  Once a registration has succeeded, a second one with the same email is rejected and
  stores nothing.
\<close>

lemma register_same_email_twice:
  assumes "rb_email b \<notin> user_email ` set (users st)" and "rb_password b = Some pw"
    and "rb_email b' = rb_email b"
  shows "register rt (snd (register rt st b)) b'
           = (Response 400 (UsError ''User already exists''), snd (register rt st b))"
proof -
  from assms(1) have "findOne (\<lambda>u. user_email u = rb_email b) (users st) = None"
    by (force simp: findOne_None_iff)
  with assms(2) have "rb_email b \<in> user_email ` set (users (snd (register rt st b)))"
    by (simp add: register_def Let_def insertOne_def)
  with assms(3) have "findOne (\<lambda>u. user_email u = rb_email b') (users (snd (register rt st b))) \<noteq> None"
    by (auto simp: findOne_None_iff)
  then show ?thesis
    by (auto simp: register_def)
qed

subsection \<open>Required fields\<close>

text \<open>
  C8, as the claim states it, fails on both create handlers. Registration checks no field:
  a request without a name is answered with 201 and stored. Product creation answers a
  request without a name and a request without a category with the same body, so the
  response cannot be listing which fields are missing.
\<close>

theorem create_without_fields_counterexample:
  "fst (register example_runtime example_users
          \<lparr> rb_name = None, rb_email = Some ''bob@example.com'', rb_password = Some ''pw'' \<rparr>)
     = Response 201 (UsRegistered 3) \<and>
   length (users (snd (register example_runtime example_users
          \<lparr> rb_name = None, rb_email = Some ''bob@example.com'', rb_password = Some ''pw'' \<rparr>))) = 3 \<and>
   fst (create_product example_products
          \<lparr> pb_name = None, pb_price = Some 25, pb_category = Some ''electronics'',
            pb_stock = None, pb_description = None \<rparr>)
     = fst (create_product example_products
          \<lparr> pb_name = Some ''Mouse'', pb_price = Some 25, pb_category = None,
            pb_stock = None, pb_description = None \<rparr>)"
  by code_simp

text \<open>
  C8, amended. A product creation whose name, price or category is missing (absent, the
  empty string or zero) is answered with 400 and the fixed error
  \<open>Missing required fields\<close>, and the state, the products collection included, is left as
  it was.
\<close>

theorem create_product_missing_fields_rejected:
  assumes "\<not> truthy_str (pb_name b) \<or> \<not> truthy_num (pb_price b) \<or> \<not> truthy_str (pb_category b)"
  shows "create_product st b = (Response 400 (PsError ''Missing required fields''), st)"
  using assms
  by (auto simp: create_product_def truthy_str_def truthy_num_def split: option.splits)

theorem create_product_missing_fields_rejected_witness:
  "create_product example_products
     \<lparr> pb_name = None, pb_price = Some 25, pb_category = Some ''electronics'',
       pb_stock = None, pb_description = None \<rparr>
     = (Response 400 (PsError ''Missing required fields''), example_products)"
  using create_product_missing_fields_rejected
    [of "\<lparr> pb_name = None, pb_price = Some 25, pb_category = Some ''electronics'',
            pb_stock = None, pb_description = None \<rparr>" example_products]
  by (simp add: truthy_str_def)

subsection \<open>Login and the cache\<close>

lemma login_check_cache: "us_cache (snd (login_check rt b (found, st))) = us_cache st"
  by (simp add: login_check_def split: option.splits sum.splits)

lemma login_miss_wrong_password:
  assumes stored: "findOne (\<lambda>u. user_email u = Some e) (users st) = Some u"
    and hash: "user_password u = Some h"
    and wrong: "\<not> bcrypt_compare rt pw h"
    and miss: "cache_get (us_cache st) (''user:'' @ e) = None"
  shows "login rt st \<lparr> lb_email = Some e, lb_password = Some pw \<rparr>
           = (Response 401 (UsError ''Invalid credentials''),
              st \<lparr> cacheMissesTotal := Suc (cacheMissesTotal st),
                   us_cache := (us_cache st)(''user:'' @ e \<mapsto> u),
                   userLoginsFailedTotal := Suc (userLoginsFailedTotal st) \<rparr>)"
  using assms
  by (simp add: login_def login_lookup_def login_check_def js_string_def cache_set_def Let_def)

lemma login_hit_wrong_password:
  assumes hit: "cache_get (us_cache st) (''user:'' @ e) = Some u"
    and hash: "user_password u = Some h"
    and wrong: "\<not> bcrypt_compare rt pw h"
  shows "login rt st \<lparr> lb_email = Some e, lb_password = Some pw \<rparr>
           = (Response 401 (UsError ''Invalid credentials''),
              st \<lparr> cacheHitsTotal := Suc (cacheHitsTotal st),
                   userLoginsFailedTotal := Suc (userLoginsFailedTotal st) \<rparr>)"
  using assms
  by (simp add: login_def login_lookup_def login_check_def js_string_def Let_def)

text \<open>
  C10, as the claim states it, fails for two kinds of login with a stored email and a wrong
  password. A repeated one finds the document in the cache: it is answered with 401,
  nothing is inserted and the cache is as before. And a login for a seeded user, whose
  document has no password field, is not answered with Unauthorized: \<open>bcrypt.compare\<close>
  throws and the response is 500.
\<close>

theorem login_wrong_password_counterexample:
  "fst (login example_runtime
          (snd (login example_runtime example_users
                  \<lparr> lb_email = Some ''alice@example.com'', lb_password = Some ''wrong'' \<rparr>))
          \<lparr> lb_email = Some ''alice@example.com'', lb_password = Some ''wrong'' \<rparr>)
     = Response 401 (UsError ''Invalid credentials'') \<and>
   us_cache (snd (login example_runtime
          (snd (login example_runtime example_users
                  \<lparr> lb_email = Some ''alice@example.com'', lb_password = Some ''wrong'' \<rparr>))
          \<lparr> lb_email = Some ''alice@example.com'', lb_password = Some ''wrong'' \<rparr>))
     = us_cache (snd (login example_runtime example_users
                  \<lparr> lb_email = Some ''alice@example.com'', lb_password = Some ''wrong'' \<rparr>)) \<and>
   fst (login example_runtime example_users
          \<lparr> lb_email = Some ''john@example.com'', lb_password = Some ''wrong'' \<rparr>)
     = Response 500 (UsError ''data and hash arguments required'')"
proof -
  let ?b = "\<lparr> lb_email = Some ''alice@example.com'', lb_password = Some ''wrong'' \<rparr>"
  have stored: "findOne (\<lambda>u. user_email u = Some ''alice@example.com'') (users example_users) = Some alice"
    by (simp add: findOne_def example_users_def john_def alice_def)
  have hash: "user_password alice = Some ''$2b$10$secret''"
    by (simp add: alice_def)
  have wrong: "\<not> bcrypt_compare example_runtime ''wrong'' ''$2b$10$secret''"
    by (simp add: example_runtime_def)
  have miss: "cache_get (us_cache example_users) (''user:'' @ ''alice@example.com'') = None"
    by (simp add: cache_get_def example_users_def)
  note first = login_miss_wrong_password [OF stored hash wrong miss]
  have hit: "cache_get (us_cache (snd (login example_runtime example_users ?b)))
      (''user:'' @ ''alice@example.com'') = Some alice"
    by (simp only: first snd_conv) (simp add: cache_get_def)
  note second = login_hit_wrong_password [OF hit hash wrong]
  have seeded: "fst (login example_runtime example_users
          \<lparr> lb_email = Some ''john@example.com'', lb_password = Some ''wrong'' \<rparr>)
     = Response 500 (UsError ''data and hash arguments required'')"
    by (simp add: login_def login_lookup_def login_check_def js_string_def cache_get_def
        cache_set_def Let_def findOne_def example_users_def john_def alice_def)
  have a: "fst (login example_runtime (snd (login example_runtime example_users ?b)) ?b)
     = Response 401 (UsError ''Invalid credentials'')"
    using second by simp
  have b: "us_cache (snd (login example_runtime (snd (login example_runtime example_users ?b)) ?b))
     = us_cache (snd (login example_runtime example_users ?b))"
    using second by simp
  from a b seeded show ?thesis by blast
qed

text \<open>
  C10, amended. A login whose email is that of a stored user with a password hash, whose
  password fails the comparison with that hash, and whose key \<open>user:<email>\<close> is not in
  the cache yet, is answered with 401 \<open>Invalid credentials\<close> after the handler has
  inserted the user's full document, password hash included, under that key: the cache
  has changed. Later requests that read the key get the document: the lookup of any later
  login for the email, and \<open>GET /api/users/<email>\<close>. The same login again is answered
  with 401 and leaves the cache as the first one left it.
\<close>

theorem login_wrong_password_caches_document:
  assumes stored: "findOne (\<lambda>u. user_email u = Some e) (users st) = Some u"
    and hash: "user_password u = Some h"
    and wrong: "\<not> bcrypt_compare rt pw h"
    and miss: "cache_get (us_cache st) (''user:'' @ e) = None"
  shows "fst (login rt st \<lparr> lb_email = Some e, lb_password = Some pw \<rparr>)
           = Response 401 (UsError ''Invalid credentials'') \<and>
         us_cache (snd (login rt st \<lparr> lb_email = Some e, lb_password = Some pw \<rparr>))
           = (us_cache st)(''user:'' @ e \<mapsto> u) \<and>
         us_cache (snd (login rt st \<lparr> lb_email = Some e, lb_password = Some pw \<rparr>)) \<noteq> us_cache st \<and>
         user_password u \<noteq> None \<and>
         fst (login_lookup (snd (login rt st \<lparr> lb_email = Some e, lb_password = Some pw \<rparr>))
                \<lparr> lb_email = Some e, lb_password = pw' \<rparr>) = Some u \<and>
         fst (get_user rt (snd (login rt st \<lparr> lb_email = Some e, lb_password = Some pw \<rparr>)) e)
           = Response 200 (UsUser u) \<and>
         fst (login rt (snd (login rt st \<lparr> lb_email = Some e, lb_password = Some pw \<rparr>))
                \<lparr> lb_email = Some e, lb_password = Some pw \<rparr>)
           = Response 401 (UsError ''Invalid credentials'') \<and>
         us_cache (snd (login rt (snd (login rt st \<lparr> lb_email = Some e, lb_password = Some pw \<rparr>))
                \<lparr> lb_email = Some e, lb_password = Some pw \<rparr>))
           = us_cache (snd (login rt st \<lparr> lb_email = Some e, lb_password = Some pw \<rparr>))"
proof -
  let ?b = "\<lparr> lb_email = Some e, lb_password = Some pw \<rparr>"
  let ?k = "''user:'' @ e"
  let ?st = "st \<lparr> cacheMissesTotal := Suc (cacheMissesTotal st),
                   us_cache := (us_cache st)(?k \<mapsto> u),
                   userLoginsFailedTotal := Suc (userLoginsFailedTotal st) \<rparr>"
  have first: "login rt st ?b = (Response 401 (UsError ''Invalid credentials''), ?st)"
    by (rule login_miss_wrong_password [OF stored hash wrong miss])
  have changed: "(us_cache st)(?k \<mapsto> u) \<noteq> us_cache st"
    using miss by (metis cache_get_def fun_upd_same option.distinct(1))
  have hit: "cache_get (us_cache ?st) ?k = Some u"
    by (simp add: cache_get_def)
  have second: "login rt ?st ?b = (Response 401 (UsError ''Invalid credentials''),
      ?st \<lparr> cacheHitsTotal := Suc (cacheHitsTotal ?st),
            userLoginsFailedTotal := Suc (userLoginsFailedTotal ?st) \<rparr>)"
    by (rule login_hit_wrong_password [OF hit hash wrong])
  have lookup: "fst (login_lookup ?st \<lparr> lb_email = Some e, lb_password = pw' \<rparr>) = Some u"
    by (simp add: login_lookup_def js_string_def cache_get_def Let_def)
  have got: "fst (get_user rt ?st e) = Response 200 (UsUser u)"
    by (simp add: get_user_def cache_get_def Let_def)
  show ?thesis
    unfolding first snd_conv fst_conv second
    using changed hash lookup got by simp
qed

theorem login_wrong_password_caches_document_witness:
  "fst (login example_runtime example_users
          \<lparr> lb_email = Some ''alice@example.com'', lb_password = Some ''wrong'' \<rparr>)
     = Response 401 (UsError ''Invalid credentials'') \<and>
   cache_get (us_cache (snd (login example_runtime example_users
          \<lparr> lb_email = Some ''alice@example.com'', lb_password = Some ''wrong'' \<rparr>)))
     (''user:'' @ ''alice@example.com'') = Some alice \<and>
   us_cache (snd (login example_runtime example_users
          \<lparr> lb_email = Some ''alice@example.com'', lb_password = Some ''wrong'' \<rparr>))
     \<noteq> us_cache example_users \<and>
   fst (get_user example_runtime (snd (login example_runtime example_users
          \<lparr> lb_email = Some ''alice@example.com'', lb_password = Some ''wrong'' \<rparr>))
        ''alice@example.com'') = Response 200 (UsUser alice)"
proof -
  have stored: "findOne (\<lambda>u. user_email u = Some ''alice@example.com'') (users example_users) = Some alice"
    by (simp add: findOne_def example_users_def john_def alice_def)
  have hash: "user_password alice = Some ''$2b$10$secret''"
    by (simp add: alice_def)
  have wrong: "\<not> bcrypt_compare example_runtime ''wrong'' ''$2b$10$secret''"
    by (simp add: example_runtime_def)
  have miss: "cache_get (us_cache example_users) (''user:'' @ ''alice@example.com'') = None"
    by (simp add: cache_get_def example_users_def)
  note t = login_wrong_password_caches_document [OF stored hash wrong miss]
  have "cache_get (us_cache (snd (login example_runtime example_users
          \<lparr> lb_email = Some ''alice@example.com'', lb_password = Some ''wrong'' \<rparr>)))
     (''user:'' @ ''alice@example.com'') = Some alice"
    using t by (simp add: cache_get_def del: append.simps)
  with t show ?thesis by blast
qed

subsection \<open>Reading a user by id\<close>

text \<open>On a cache miss the handler returns no password hash: the query projects it out.\<close>

lemma get_user_miss_hides_password:
  "cache_get (us_cache st) (''user:'' @ i) = None \<Longrightarrow>
   \<not> exposes_password (body (fst (get_user rt st i)))"
  by (simp add: get_user_def Let_def exposes_password_def project_password_def
      split: sum.splits option.splits)

text \<open>
  C4. The hit path returns what the cache holds under \<open>user:<id>\<close>, and the login handler
  stores full documents under \<open>user:<email>\<close>, in the same key space. After any login
  attempt for a stored user's email, \<open>GET /api/users/<email>\<close> answers 200 with that
  user's document and its password hash, where the claim says that no response of the
  endpoint carries the hash.
\<close>

theorem get_user_returns_cached_login_document:
  assumes stored: "findOne (\<lambda>u. user_email u = Some e) (users st) = Some u"
    and hash: "user_password u = Some h"
    and miss: "cache_get (us_cache st) (''user:'' @ e) = None"
  shows "fst (get_user rt (snd (login rt st \<lparr> lb_email = Some e, lb_password = pw \<rparr>)) e)
           = Response 200 (UsUser u) \<and>
         exposes_password (body (fst (get_user rt (snd (login rt st \<lparr> lb_email = Some e, lb_password = pw \<rparr>)) e)))"
proof -
  let ?b = "\<lparr> lb_email = Some e, lb_password = pw \<rparr>"
  have l: "login_lookup st ?b = (Some u, st \<lparr> cacheMissesTotal := Suc (cacheMissesTotal st),
              us_cache := (us_cache st)(''user:'' @ e \<mapsto> u) \<rparr>)"
    using stored miss by (simp add: login_lookup_def js_string_def cache_set_def Let_def)
  have "us_cache (snd (login rt st ?b)) = (us_cache st)(''user:'' @ e \<mapsto> u)"
    by (simp add: login_def l login_check_cache)
  then have "fst (get_user rt (snd (login rt st ?b)) e) = Response 200 (UsUser u)"
    by (simp add: get_user_def cache_get_def Let_def)
  with hash show ?thesis by (simp add: exposes_password_def)
qed

theorem get_user_returns_cached_login_document_witness:
  "fst (get_user example_runtime
          (snd (login example_runtime example_users
                  \<lparr> lb_email = Some ''alice@example.com'', lb_password = Some ''secret'' \<rparr>))
          ''alice@example.com'') = Response 200 (UsUser alice) \<and>
   user_password alice = Some ''$2b$10$secret''"
proof -
  have stored: "findOne (\<lambda>u. user_email u = Some ''alice@example.com'') (users example_users) = Some alice"
    by (simp add: findOne_def example_users_def john_def alice_def)
  have hash: "user_password alice = Some ''$2b$10$secret''"
    by (simp add: alice_def)
  have miss: "cache_get (us_cache example_users) (''user:'' @ ''alice@example.com'') = None"
    by (simp add: cache_get_def example_users_def)
  show ?thesis
    using get_user_returns_cached_login_document [OF stored hash miss, of example_runtime "Some ''secret''"] hash
    by blast
qed

subsection \<open>Listing products twice\<close>

lemma list_products_hit:
  "cache_get (ps_cache st) (cache_key q) = Some c \<Longrightarrow>
   list_products rt st q = (Response 500 (PsError ''products.forEach is not a function''), st)"
  by (simp add: list_products_def Let_def)

lemma list_products_miss_cache:
  assumes "cache_get (ps_cache st) (cache_key q) = None"
    and "fst (list_products rt st q) = Response 200 b"
  shows "cache_get (ps_cache (snd (list_products rt st q))) (cache_key q) \<noteq> None"
  using assms
  by (cases "find_page rt st q") (simp_all add: list_products_def Let_def cache_get_def cache_set_def)

text \<open>
  C5. When \<open>GET /api/products\<close> has answered 200 (so it has filled the cache), the same
  request again is a cache hit and is answered with 500 and the message of the
  \<open>TypeError\<close>, where the claim says that it returns the same items and pagination.
\<close>

theorem list_products_repeat_fails:
  assumes "fst (list_products rt st q) = Response 200 b"
  shows "fst (list_products rt (snd (list_products rt st q)) q)
           = Response 500 (PsError ''products.forEach is not a function'')"
proof (cases "cache_get (ps_cache st) (cache_key q)")
  case None
  from list_products_miss_cache [OF None assms]
  obtain c where "cache_get (ps_cache (snd (list_products rt st q))) (cache_key q) = Some c"
    by blast
  then show ?thesis by (simp add: list_products_hit)
next
  case (Some c)
  with assms show ?thesis by (simp add: list_products_hit)
qed

theorem list_products_repeat_fails_witness:
  "fst (list_products example_runtime example_products no_params)
     = Response 200 (PsList [laptop]
         \<lparr> pg_page = Some 1, pg_limit = Some 10, pg_total = Some 1, pg_pages = Some 1 \<rparr>) \<and>
   fst (list_products example_runtime
          (snd (list_products example_runtime example_products no_params)) no_params)
     = Response 500 (PsError ''products.forEach is not a function'')"
  using list_products_repeat_fails [OF list_products_example] list_products_example
  by simp

subsection \<open>Stock\<close>

text \<open>
  The purchase handler keeps every stock non-negative, whatever document it read before:
  its write is conditioned on the stock at write time.
\<close>

lemma purchase_commit_keeps_stock_nonnegative:
  assumes "\<forall>p \<in> set (products st). 0 \<le> stock p"
  shows "\<forall>p \<in> set (products (snd (purchase_commit st pid q i found))). 0 \<le> stock p"
proof -
  define n where "n = (case q of None \<Rightarrow> 1 | Some q' \<Rightarrow> q')"
  define w where "w = updateOne (\<lambda>p. product_id p = i \<and> n \<le> stock p)
            (\<lambda>p. p \<lparr> stock := stock p - n \<rparr>) (products st)"
  have kept: "\<forall>p \<in> set (snd w). 0 \<le> stock p"
    unfolding w_def by (rule updateOne_preserves [OF assms]) simp
  show ?thesis
  proof (cases found)
    case None
    with assms show ?thesis by (simp add: purchase_commit_def)
  next
    case (Some product)
    show ?thesis
    proof (cases "stock product < n")
      case True
      with Some assms show ?thesis by (simp add: purchase_commit_def n_def)
    next
      case False
      have "products (snd (purchase_commit st pid q i found)) = snd w"
        using Some False
        by (cases w) (simp add: purchase_commit_def n_def [symmetric] w_def [symmetric])
      with kept show ?thesis by simp
    qed
  qed
qed

lemma purchase_keeps_stock_nonnegative:
  assumes "\<forall>p \<in> set (products st). 0 \<le> stock p"
  shows "\<forall>p \<in> set (products (snd (purchase rt st pid q))). 0 \<le> stock p"
  using assms purchase_commit_keeps_stock_nonnegative [OF assms]
  by (auto simp: purchase_def split: sum.splits)

lemma put_stock_single:
  assumes "ObjectId rt i = Inr n" "products st = [p]" "product_id p = n"
  shows "products (snd (put_stock rt st i (Some q))) = [p \<lparr> stock := stock p + q \<rparr>]"
  using assms by (simp add: put_stock_def Let_def)

lemma decrement_stock_single:
  assumes "ObjectId rt i = Inr n" "product_service_up e"
  shows "products st = [p] \<Longrightarrow> product_id p = n \<Longrightarrow> \<forall>item \<in> set items. oi_productId item = i \<Longrightarrow>
     products (decrement_stock rt e st items)
       = [p \<lparr> stock := stock p - sum_list (map oi_quantity items) \<rparr>]"
proof (induction items arbitrary: st p)
  case Nil
  then show ?case by simp
next
  case (Cons item items)
  let ?st = "snd (put_stock rt st (oi_productId item) (Some (- oi_quantity item)))"
  let ?p = "p \<lparr> stock := stock p + - oi_quantity item \<rparr>"
  from Cons.prems have "oi_productId item = i" by simp
  with put_stock_single [OF assms(1) Cons.prems(1,2), of "- oi_quantity item"]
  have "products ?st = [?p]" by simp
  moreover from Cons.prems have "product_id ?p = n" by simp
  moreover from Cons.prems have "\<forall>item \<in> set items. oi_productId item = i" by simp
  ultimately have "products (decrement_stock rt e ?st items)
      = [?p \<lparr> stock := stock ?p - sum_list (map oi_quantity items) \<rparr>]"
    by (rule Cons.IH)
  with assms(2) show ?case by (simp add: algebra_simps)
qed

lemma order_checks_InrD:
  "order_checks rt e sys b = (Inr (userId, items, t, l), sys') \<Longrightarrow>
   ob_userId b = Some userId \<and> ob_items b = Some items"
  by (auto simp: order_checks_def split: option.splits prod.splits sum.splits if_splits)

lemma order_checks_two_lines:
  "\<exists>r. fst (order_checks example_runtime (all_up paid) example_system two_lines) = Inr r"
proof -
  have single: "products example_products = [laptop]"
    by (simp add: example_products_def)
  obtain u us' where u: "fetch_user example_runtime (all_up paid) example_users
      ''651234567890123456789001'' = (Some u, us')"
    using fetch_user_example [of paid]
    by (cases "fetch_user example_runtime (all_up paid) example_users ''651234567890123456789001''") simp
  have "\<exists>r. fst (validate_items example_runtime (all_up paid) example_products
      [\<lparr> oi_productId = ''651234567890123456789101'', oi_quantity = 6 \<rparr>,
       \<lparr> oi_productId = ''651234567890123456789101'', oi_quantity = 6 \<rparr>] 0 []) = Inr r"
    by (simp add: fetch_product_example single Let_def) (simp add: laptop_def)
  then obtain r ps' where w: "validate_items example_runtime (all_up paid) example_products
      [\<lparr> oi_productId = ''651234567890123456789101'', oi_quantity = 6 \<rparr>,
       \<lparr> oi_productId = ''651234567890123456789101'', oi_quantity = 6 \<rparr>] 0 [] = (Inr r, ps')"
    by (cases "validate_items example_runtime (all_up paid) example_products
      [\<lparr> oi_productId = ''651234567890123456789101'', oi_quantity = 6 \<rparr>,
       \<lparr> oi_productId = ''651234567890123456789101'', oi_quantity = 6 \<rparr>] 0 []") auto
  show ?thesis
    by (cases r) (simp add: order_checks_def two_lines_def example_system_def u w del: validate_items.simps)
qed

text \<open>
  C1. The other writers do not keep the stock non-negative. On a product holding 10,
  \<open>PUT /api/products/:id/stock\<close> with quantity -11 leaves -1; an order with two lines of 6
  for that product passes both stock checks (each against the 10 it read), is paid and
  stored, and its two decrement calls leave -2; and a product can be created with stock -5.
  The claim says that no sequence of these operations makes a stock negative.
\<close>

theorem stock_goes_negative:
  "map stock (products (snd (put_stock example_runtime example_products
      ''651234567890123456789101'' (Some (- 11))))) = [- 1] \<and>
   map stock (products (ps (snd (create_order example_runtime (all_up True) example_system two_lines))))
     = [- 2] \<and>
   map stock (products (snd (create_product example_products
      \<lparr> pb_name = Some ''Mouse'', pb_price = Some 25, pb_category = Some ''electronics'',
        pb_stock = Some (- 5), pb_description = None \<rparr>))) = [10, - 5]"
proof (intro conjI)
  have single: "products example_products = [laptop]" "product_id laptop = 101" "stock laptop = 10"
    by (simp_all add: example_products_def laptop_def)
  show "map stock (products (snd (put_stock example_runtime example_products
      ''651234567890123456789101'' (Some (- 11))))) = [- 1]"
    using put_stock_single [OF example_product_oid single(1,2), of "- 11"] single(3) by simp
  show "map stock (products (snd (create_product example_products
      \<lparr> pb_name = Some ''Mouse'', pb_price = Some 25, pb_category = Some ''electronics'',
        pb_stock = Some (- 5), pb_description = None \<rparr>))) = [10, - 5]"
    by (simp add: create_product_def Let_def insertOne_def single)
  obtain r sys' where c: "order_checks example_runtime (all_up True) example_system two_lines = (Inr r, sys')"
    using order_checks_two_lines [of True]
    by (cases "order_checks example_runtime (all_up True) example_system two_lines") auto
  obtain userId items t l where r: "r = (userId, items, t, l)"
    by (cases r)
  from order_checks_InrD [OF c [unfolded r]]
  have b: "userId = ''651234567890123456789001''"
    "items = [\<lparr> oi_productId = ''651234567890123456789101'', oi_quantity = 6 \<rparr>,
              \<lparr> oi_productId = ''651234567890123456789101'', oi_quantity = 6 \<rparr>]"
    by (simp_all add: two_lines_def)
  from order_checks_products [of example_runtime "all_up True" example_system two_lines] c
  have p: "products (ps sys') = [laptop]"
    by (simp add: example_system_def single)
  have up: "product_service_up (all_up True)" "payment_success (all_up True)"
    by (simp_all add: all_up_def)
  have "products (decrement_stock example_runtime (all_up True) (ps sys') items)
      = [laptop \<lparr> stock := stock laptop - sum_list (map oi_quantity items) \<rparr>]"
    by (rule decrement_stock_single [OF example_product_oid up(1) p single(2)]) (simp add: b)
  then have "map stock (products (decrement_stock example_runtime (all_up True) (ps sys') items)) = [- 2]"
    by (simp add: b single)
  then show "map stock (products (ps (snd (create_order example_runtime (all_up True) example_system two_lines))))
     = [- 2]"
    by (simp add: create_order_def c r order_commit_def up b example_user_oid Let_def)
qed

subsection \<open>Two concurrent purchases\<close>

lemma purchase_turn_Waiting:
  "ObjectId rt pid = Inr i \<Longrightarrow>
   purchase_turn rt (pid, q) (st, Waiting)
     = (st, Fetched i (findOne (\<lambda>p. product_id p = i) (products st)))"
  by (simp add: purchase_turn_def purchase_lookup_def)

lemma purchase_turn_rank:
  "purchase_turn rt req (st, a) = (st', a') \<Longrightarrow>
   stage_rank a' = 2 \<or> stage_rank a' = Suc (stage_rank a)"
  by (auto simp: purchase_turn_def stage_rank_def
      split: purchase_stage.splits sum.splits prod.splits)

lemma run_race_rank:
  "run_race rt ra rb sched (st, a, b) = (st', a', b') \<Longrightarrow>
   min 2 (stage_rank a + length (filter id sched)) \<le> stage_rank a' \<and>
   min 2 (stage_rank b + length (filter Not sched)) \<le> stage_rank b'"
proof (induction sched arbitrary: st a b)
  case Nil
  then show ?case by simp
next
  case (Cons turn sched)
  show ?case
  proof (cases turn)
    case True
    obtain s1 a1 where t: "purchase_turn rt ra (st, a) = (s1, a1)"
      by (cases "purchase_turn rt ra (st, a)")
    from Cons.prems True t have "run_race rt ra rb sched (s1, a1, b) = (st', a', b')" by simp
    from Cons.IH [OF this] purchase_turn_rank [OF t] True show ?thesis by auto
  next
    case False
    obtain s1 b1 where t: "purchase_turn rt rb (st, b) = (s1, b1)"
      by (cases "purchase_turn rt rb (st, b)")
    from Cons.prems False t have "run_race rt ra rb sched (s1, a, b1) = (st', a', b')" by simp
    from Cons.IH [OF this] purchase_turn_rank [OF t] False show ?thesis by auto
  qed
qed

lemma stage_rank_2: "stage_rank x = 2 \<longleftrightarrow> (\<exists>r. x = Answered r)"
  by (cases x) (simp_all add: stage_rank_def)

lemma purchase_turn_Answered: "purchase_turn rt req (st, Answered r) = (st, Answered r)"
  by (simp add: purchase_turn_def)

lemma purchase_turn_first_write:
  assumes ids: "distinct (map product_id (products st))"
    and cur: "findOne (\<lambda>p. product_id p = i) (products st) = Some p"
    and ten: "stock p = 10" "stock q = 10"
    and turn: "purchase_turn rt (pid, Some 6) (st, Fetched i (Some q)) = (st', x)"
  shows "x = Answered (Response 200 (PsPurchased pid 6 4)) \<and>
         distinct (map product_id (products st')) \<and>
         (\<exists>p'. findOne (\<lambda>p. product_id p = i) (products st') = Some p' \<and> stock p' = 4)"
proof -
  let ?u = "updateOne (\<lambda>d. product_id d = i \<and> 6 \<le> stock d)
              (\<lambda>d. d \<lparr> stock := stock d - 6 \<rparr>) (products st)"
  from updateOne_first_match [OF cur, of "\<lambda>d. 6 \<le> stock d" "\<lambda>d. d \<lparr> stock := stock d - 6 \<rparr>"] ten
  have u: "fst ?u = 1"
    "findOne (\<lambda>p. product_id p = i) (snd ?u) = Some (p \<lparr> stock := stock p - 6 \<rparr>)"
    "map product_id (snd ?u) = map product_id (products st)"
    by auto
  from turn ten u
  have r: "x = Answered (Response 200 (PsPurchased pid 6 4))" "products st' = snd ?u"
    by (auto simp: purchase_turn_def purchase_commit_def split: prod.splits)
  from r u ids ten show ?thesis by simp
qed

lemma settled_turn:
  assumes oid: "ObjectId rt pid = Inr i"
    and s: "settled pid i late (st, w, l)"
    and turn: "purchase_turn rt (pid, Some 6) (st, l) = (st', l')"
  shows "settled pid i late (st', w, l')"
proof -
  from s obtain p where d: "distinct (map product_id (products st))"
    and cur: "findOne (\<lambda>p. product_id p = i) (products st) = Some p" and four: "stock p = 4"
    by (auto simp: settled_def)
  show ?thesis
  proof (cases l)
    case Waiting
    with turn oid cur have "st' = st" "l' = Fetched i (Some p)"
      by (auto simp: purchase_turn_def purchase_lookup_def)
    with s Waiting four show ?thesis
      by (auto simp: settled_def split: if_splits)
  next
    case (Fetched j found)
    from s Fetched obtain q where q: "j = i" "found = Some q"
      by (auto simp: settled_def split: if_splits)
    show ?thesis
    proof (cases late)
      case True
      with s Fetched q have "stock q = 4" by (auto simp: settled_def)
      with turn Fetched q have "l' = Answered (Response 400 (PsInsufficient 4 6))" "st' = st"
        by (auto simp: purchase_turn_def purchase_commit_def split: prod.splits)
      with s True show ?thesis by (auto simp: settled_def)
    next
      case False
      with s Fetched q have ten: "stock q = 10" by (auto simp: settled_def)
      from updateOne_no_match [OF d cur, of "\<lambda>d. 6 \<le> stock d" "\<lambda>d. d \<lparr> stock := stock d - 6 \<rparr>"] four
      have u: "updateOne (\<lambda>d. product_id d = i \<and> 6 \<le> stock d)
                (\<lambda>d. d \<lparr> stock := stock d - 6 \<rparr>) (products st) = (0, products st)"
        by simp
      from turn Fetched q ten u
      have "l' = Answered (Response 400 (PsError ''Failed to process purchase''))"
        "products st' = products st"
        by (auto simp: purchase_turn_def purchase_commit_def split: prod.splits)
      with s False show ?thesis by (auto simp: settled_def)
    qed
  next
    case (Answered r)
    with turn have "st' = st" "l' = l"
      by (auto simp: purchase_turn_def)
    with s show ?thesis by simp
  qed
qed

lemma settled_winner: "settled pid i late (st, w, l) \<Longrightarrow> purchase_turn rt req (st, w) = (st, w)"
  by (auto simp: settled_def purchase_turn_Answered)

lemma settled_run_first:
  assumes oid: "ObjectId rt pid = Inr i"
  shows "settled pid i late (st, a, b) \<Longrightarrow>
         run_race rt (pid, Some 6) (pid, Some 6) sched (st, a, b) = (st', a', b') \<Longrightarrow>
         settled pid i late (st', a', b')"
proof (induction sched arbitrary: st a b)
  case Nil
  then show ?case by simp
next
  case (Cons turn sched)
  show ?case
  proof (cases turn)
    case True
    with Cons.prems settled_winner [OF Cons.prems(1), of rt "(pid, Some 6)"]
    have "run_race rt (pid, Some 6) (pid, Some 6) sched (st, a, b) = (st', a', b')" by simp
    from Cons.IH [OF Cons.prems(1) this] show ?thesis .
  next
    case False
    obtain s1 b1 where t: "purchase_turn rt (pid, Some 6) (st, b) = (s1, b1)"
      by (cases "purchase_turn rt (pid, Some 6) (st, b)")
    from settled_turn [OF oid Cons.prems(1) t] have s: "settled pid i late (s1, a, b1)" .
    from Cons.prems(2) False t
    have "run_race rt (pid, Some 6) (pid, Some 6) sched (s1, a, b1) = (st', a', b')" by simp
    from Cons.IH [OF s this] show ?thesis .
  qed
qed

lemma settled_run_second:
  assumes oid: "ObjectId rt pid = Inr i"
  shows "settled pid i late (st, b, a) \<Longrightarrow>
         run_race rt (pid, Some 6) (pid, Some 6) sched (st, a, b) = (st', a', b') \<Longrightarrow>
         settled pid i late (st', b', a')"
proof (induction sched arbitrary: st a b)
  case Nil
  then show ?case by simp
next
  case (Cons turn sched)
  show ?case
  proof (cases turn)
    case False
    with Cons.prems settled_winner [OF Cons.prems(1), of rt "(pid, Some 6)"]
    have "run_race rt (pid, Some 6) (pid, Some 6) sched (st, a, b) = (st', a', b')" by simp
    from Cons.IH [OF Cons.prems(1) this] show ?thesis .
  next
    case True
    obtain s1 a1 where t: "purchase_turn rt (pid, Some 6) (st, a) = (s1, a1)"
      by (cases "purchase_turn rt (pid, Some 6) (st, a)")
    from settled_turn [OF oid Cons.prems(1) t] have s: "settled pid i late (s1, b, a1)" .
    from Cons.prems(2) True t
    have "run_race rt (pid, Some 6) (pid, Some 6) sched (s1, a1, b) = (st', a', b')" by simp
    from Cons.IH [OF s this] show ?thesis .
  qed
qed


lemma settled_final:
  assumes "settled pid i late (st', Answered rw, Answered rl)"
  shows "rw = Response 200 (PsPurchased pid 6 4) \<and>
         rl = (if late then Response 400 (PsInsufficient 4 6)
               else Response 400 (PsError ''Failed to process purchase'')) \<and>
         map_option stock (findOne (\<lambda>p. product_id p = i) (products st')) = Some 4"
  using assms by (auto simp: settled_def split: if_splits)

text \<open>
  C2. On a product holding 10 (identifiers being unique in the collection), two purchase
  requests for 6 each, run in any order of their turns that lets both finish, end with
  exactly one success (status 200, remaining stock 4) and one rejection with status 400,
  never two successes, and the stock ends at 4. Which request wins and how the other is
  refused is fixed by the first turns of the schedule. When the schedule starts with both
  turns of one request, the other reads the stock after the write and is refused by the
  handler's check: \<open>Insufficient stock\<close>, available 4, requested 6. Otherwise both have
  read 10 before any write; the third turn is the first write and wins, and the write of
  the other, \<open>updateOne\<close> under \<open>{ _id, stock: { $gte: 6 } }\<close>, matches nothing:
  400 \<open>Failed to process purchase\<close>. In both cases the rejection is the 400 answer to a
  stock that does not cover the quantity; the second is what the conditional write adds
  to the read, and what an unconditional write would have turned into a second success.
\<close>

theorem concurrent_purchases_one_winner:
  assumes oid: "ObjectId rt pid = Inr i"
    and ids: "distinct (map product_id (products st))"
    and cur: "findOne (\<lambda>p. product_id p = i) (products st) = Some p"
    and ten: "stock p = 10"
    and turns: "2 \<le> length (filter id sched)" "2 \<le> length (filter Not sched)"
  shows "\<exists>st' ra rb.
           run_race rt (pid, Some 6) (pid, Some 6) sched (st, Waiting, Waiting)
             = (st', Answered ra, Answered rb) \<and>
           ((status ra = 200 \<and> status rb = 400) \<or> (status ra = 400 \<and> status rb = 200)) \<and>
           (ra, rb) =
             (if take 2 sched = [True, True]
              then (Response 200 (PsPurchased pid 6 4), Response 400 (PsInsufficient 4 6))
              else if take 2 sched = [False, False]
              then (Response 400 (PsInsufficient 4 6), Response 200 (PsPurchased pid 6 4))
              else if sched ! 2
              then (Response 200 (PsPurchased pid 6 4),
                    Response 400 (PsError ''Failed to process purchase''))
              else (Response 400 (PsError ''Failed to process purchase''),
                    Response 200 (PsPurchased pid 6 4))) \<and>
           map_option stock (findOne (\<lambda>p. product_id p = i) (products st')) = Some 4"
proof -
  let ?req = "(pid, Some 6 :: rat option)"
  obtain st' a' b' where run:
    "run_race rt ?req ?req sched (st, Waiting, Waiting) = (st', a', b')"
    by (cases "run_race rt ?req ?req sched (st, Waiting, Waiting)")
  from run_race_rank [OF run] turns have "stage_rank a' = 2" "stage_rank b' = 2"
    using purchase_turn_rank by (auto simp: stage_rank_def split: purchase_stage.splits)
  then obtain ra rb where ans: "a' = Answered ra" "b' = Answered rb"
    by (auto simp: stage_rank_2)
  have "length (filter id sched) + length (filter Not sched) = length sched"
    using sum_length_filter_compl [of id sched] by (simp add: comp_def)
  with turns have "3 \<le> length sched" by simp
  then obtain t1 t2 t3 rest where sched: "sched = t1 # t2 # t3 # rest"
    by (auto simp: Suc_le_length_iff eval_nat_numeral)
  have fetch: "\<And>s. products s = products st \<Longrightarrow>
      purchase_turn rt ?req (s, Waiting) = (s, Fetched i (Some p))"
    using cur by (simp add: purchase_turn_Waiting [OF oid])
  obtain s1 x where commit: "purchase_turn rt ?req (st, Fetched i (Some p)) = (s1, x)"
    by (cases "purchase_turn rt ?req (st, Fetched i (Some p))")
  from purchase_turn_first_write [OF ids cur ten ten commit]
  have won: "x = Answered (Response 200 (PsPurchased pid 6 4))"
    and s1: "distinct (map product_id (products s1))"
      "\<exists>p'. findOne (\<lambda>p. product_id p = i) (products s1) = Some p' \<and> stock p' = 4"
    by auto
  have late: "settled pid i True (s1, x, Waiting)"
    using won s1 by (simp add: settled_def)
  have race: "settled pid i False (s1, x, Fetched i (Some p))"
    using won s1 ten by (simp add: settled_def)
  consider (aa) "t1" "t2" | (bb) "\<not> t1" "\<not> t2"
    | (mixed_a) "t1 \<noteq> t2" "t3" | (mixed_b) "t1 \<noteq> t2" "\<not> t3"
    by blast
  then show ?thesis
  proof cases
    case aa
    with run sched fetch commit
    have "run_race rt ?req ?req (t3 # rest) (s1, x, Waiting) = (st', a', b')"
      by simp
    from settled_run_first [OF oid late this] ans
    have "settled pid i True (st', Answered ra, Answered rb)" by simp
    from settled_final [OF this] run ans aa sched show ?thesis by simp
  next
    case bb
    with run sched fetch commit
    have "run_race rt ?req ?req (t3 # rest) (s1, Waiting, x) = (st', a', b')"
      by simp
    from settled_run_second [OF oid late this] ans
    have "settled pid i True (st', Answered rb, Answered ra)" by simp
    from settled_final [OF this] run ans bb sched show ?thesis by simp
  next
    case mixed_a
    with run sched fetch commit
    have "run_race rt ?req ?req rest (s1, x, Fetched i (Some p)) = (st', a', b')"
      by (cases t1; cases t2) simp_all
    from settled_run_first [OF oid race this] ans
    have "settled pid i False (st', Answered ra, Answered rb)" by simp
    from settled_final [OF this] run ans mixed_a sched show ?thesis
      by (cases t1; cases t2) simp_all
  next
    case mixed_b
    with run sched fetch commit
    have "run_race rt ?req ?req rest (s1, Fetched i (Some p), x) = (st', a', b')"
      by (cases t1; cases t2) simp_all
    from settled_run_second [OF oid race this] ans
    have "settled pid i False (st', Answered rb, Answered ra)" by simp
    from settled_final [OF this] run ans mixed_b sched show ?thesis
      by (cases t1; cases t2) simp_all
  qed
qed

theorem concurrent_purchases_one_winner_witness:
  "(\<exists>st'.
      run_race example_runtime
        (''651234567890123456789101'', Some 6) (''651234567890123456789101'', Some 6)
        [True, True, False, False] (example_products, Waiting, Waiting)
        = (st', Answered (Response 200 (PsPurchased ''651234567890123456789101'' 6 4)),
                Answered (Response 400 (PsInsufficient 4 6))) \<and>
      map_option stock (findOne (\<lambda>p. product_id p = 101) (products st')) = Some 4) \<and>
   (\<exists>st'.
      run_race example_runtime
        (''651234567890123456789101'', Some 6) (''651234567890123456789101'', Some 6)
        [True, False, True, False] (example_products, Waiting, Waiting)
        = (st', Answered (Response 200 (PsPurchased ''651234567890123456789101'' 6 4)),
                Answered (Response 400 (PsError ''Failed to process purchase''))) \<and>
      map_option stock (findOne (\<lambda>p. product_id p = 101) (products st')) = Some 4)"
proof -
  have ids: "distinct (map product_id (products example_products))"
    by (simp add: example_products_def)
  have cur: "findOne (\<lambda>p. product_id p = 101) (products example_products) = Some laptop"
    by (simp add: findOne_def example_products_def laptop_def)
  have ten: "stock laptop = 10"
    by (simp add: laptop_def)
  have apart: "2 \<le> length (filter id [True, True, False, False])"
    "2 \<le> length (filter Not [True, True, False, False])"
    by simp_all
  have overlap: "2 \<le> length (filter id [True, False, True, False])"
    "2 \<le> length (filter Not [True, False, True, False])"
    by simp_all
  show ?thesis
    using concurrent_purchases_one_winner [OF example_product_oid ids cur ten apart]
      concurrent_purchases_one_winner [OF example_product_oid ids cur ten overlap]
    by (simp del: run_race.simps)
qed

subsection \<open>A failed payment\<close>

lemma order_checks_os: "os (snd (order_checks rt e sys b)) = os sys"
  by (simp add: order_checks_def split: option.splits prod.splits sum.splits)

text \<open>
  C6. When an order request has passed the checks before the payment and the simulated
  payment fails, the response is 400 \<open>Payment processing failed\<close>, the counter of failed
  orders is one higher, and the orders collection is as before; nothing else of the order
  service's state changes either.
\<close>

theorem payment_failure_persists_nothing:
  assumes checks: "order_checks rt e sys b = (Inr checked, sys')"
    and failed: "\<not> payment_success e"
  shows "fst (create_order rt e sys b) = Response 400 (OsError ''Payment processing failed'') \<and>
         ordersFailedTotal (os (snd (create_order rt e sys b))) = Suc (ordersFailedTotal (os sys)) \<and>
         orders (os (snd (create_order rt e sys b))) = orders (os sys) \<and>
         os (snd (create_order rt e sys b))
           = (os sys) \<lparr> ordersFailedTotal := Suc (ordersFailedTotal (os sys)) \<rparr>"
proof -
  have "os sys' = os sys"
    using order_checks_os [of rt e sys b] checks by simp
  with checks failed show ?thesis
    by (simp add: create_order_def order_commit_def split: prod.splits)
qed

theorem payment_failure_persists_nothing_witness:
  "fst (create_order example_runtime (all_up False) example_system one_laptop)
     = Response 400 (OsError ''Payment processing failed'') \<and>
   ordersFailedTotal (os (snd (create_order example_runtime (all_up False) example_system one_laptop))) = 1 \<and>
   orders (os (snd (create_order example_runtime (all_up False) example_system one_laptop))) = []"
proof -
  obtain checked sys' where checks:
    "order_checks example_runtime (all_up False) example_system one_laptop = (Inr checked, sys')"
    using order_checks_one_laptop [of False]
    by (cases "order_checks example_runtime (all_up False) example_system one_laptop") simp
  have failed: "\<not> payment_success (all_up False)"
    by (simp add: all_up_def)
  show ?thesis
    using payment_failure_persists_nothing [OF checks failed]
    by (simp add: example_system_def example_orders_def)
qed

subsection \<open>Health of the order service\<close>

text \<open>
  C9. When the order service's own database ping succeeds, \<open>GET /health\<close> answers 200 with
  the top-level status \<open>healthy\<close>, whatever the peers do; the probes of the peers fill the
  two entries of \<open>dependencies\<close>, and a peer that cannot be reached changes its own entry
  to \<open>unhealthy\<close> and nothing else in the response.
\<close>

theorem order_health_ignores_peers:
  assumes "os_ping h = None"
  shows "status (order_health h) = 200 \<and>
         h_status (body (order_health h)) = ''healthy'' \<and>
         h_dependencies (body (order_health h)) =
           Some (probe (us_reachable h) (peer_health (us_ping h)),
                 probe (ps_reachable h) (peer_health (ps_ping h))) \<and>
         order_health (h \<lparr> us_reachable := False \<rparr>) =
           Response 200 ((body (order_health h))
             \<lparr> h_dependencies := Some (''unhealthy'', probe (ps_reachable h) (peer_health (ps_ping h))) \<rparr>) \<and>
         order_health (h \<lparr> ps_reachable := False \<rparr>) =
           Response 200 ((body (order_health h))
             \<lparr> h_dependencies := Some (probe (us_reachable h) (peer_health (us_ping h)), ''unhealthy'') \<rparr>)"
  using assms by (simp add: order_health_def Let_def probe_def)

theorem order_health_ignores_peers_witness:
  "status (order_health \<lparr> os_ping = None, us_reachable = False, us_ping = None,
                          ps_reachable = True, ps_ping = Some ''connection refused'' \<rparr>) = 200 \<and>
   h_status (body (order_health \<lparr> os_ping = None, us_reachable = False, us_ping = None,
                          ps_reachable = True, ps_ping = Some ''connection refused'' \<rparr>)) = ''healthy'' \<and>
   h_dependencies (body (order_health \<lparr> os_ping = None, us_reachable = False, us_ping = None,
                          ps_reachable = True, ps_ping = Some ''connection refused'' \<rparr>))
     = Some (''unhealthy'', ''unhealthy'')"
  using order_health_ignores_peers
    [of "\<lparr> os_ping = None, us_reachable = False, us_ping = None,
           ps_reachable = True, ps_ping = Some ''connection refused'' \<rparr>"]
  by (simp add: probe_def peer_health_def ok2xx_def)

end
